theory Spec2Isabelle
  imports Main "HOL-Library.Sublist"
begin

section \<open>InstanceManager: data model\<close>

text \<open>
  The embedding follows \<^verbatim>\<open>src/InstanceManager.py\<close>. The class drives two external
  libraries (the EC2 resource API and an SSH client). Every call into them is written to a
  trace of events, in the order the code makes the calls, and every answer of the outside
  world is read from an environment whose functions take the trace so far: a raised
  exception is an answer like any other. Printing and sleeping are events too.
\<close>

text \<open>
  The exceptions the code raises, catches or lets through. \<open>TypeError\<close> is what
  \<^verbatim>\<open>__parse_instances\<close> raises for an instance that is not tracked; \<open>KeyError\<close> is the
  failed lookup \<^verbatim>\<open>self.ssh_clients[instance.id]\<close>, carrying the key; \<open>ClientError\<close>
  carries \<^verbatim>\<open>str(e)\<close>; \<open>OtherError\<close> stands for every exception class the code has
  no handler for.
\<close>

datatype exn =
    TypeError
  | KeyError string
  | IndexError
  | TimeoutError
  | NoValidConnectionsError
  | AuthenticationException
  | ClientError string
  | OtherError string

text \<open>
  An EC2 instance object: the two attributes the code reads. The identifier is what the
  object is compared by; the address is what the handle at hand has loaded.
\<close>

record ec2_instance =
  id_inst :: string
  public_ip_address :: "string option"

datatype lifecycle =
    Terminate | WaitUntilTerminated
  | Start | WaitUntilRunning
  | Stop | WaitUntilStopped

datatype sftp_op = OpenSftp | Put string string | CloseSftp

text \<open>
  SSH clients are objects; the dictionary \<^verbatim>\<open>ssh_clients\<close> holds references to them.
  A client is named by the number of \<^verbatim>\<open>paramiko.SSHClient()\<close> calls made before
  its own. \<open>Print\<close> carries the text written to standard output, line end included.
\<close>

datatype event =
    Print string
  | Sleep nat
  | Lifecycle lifecycle string
  | Connect nat "string option" string string "string option"
  | Close nat
  | ExecCommand nat string
  | RecvExitStatus nat
  | Sftp nat sftp_op
  | CreateSecurityGroup string string
  | AuthorizeIngress string "(string \<times> nat \<times> nat \<times> string \<times> string) list"
  | DescribeSecurityGroups "string list"
  | DeleteSecurityGroup bool string

text \<open>
  The outside world. Each function gets the trace up to the call and the call's arguments,
  and answers with the call's result or with the exception it raises.
  \<^item> \<open>instance_call\<close>: \<^verbatim>\<open>instance.terminate()\<close>, \<^verbatim>\<open>instance.wait_until_terminated()\<close>
    and their siblings, on the instance with the given identifier;
  \<^item> \<open>load_key\<close>: \<^verbatim>\<open>RSAKey.from_private_key_file(key_file)\<close>, or, without a key file,
    \<^verbatim>\<open>RSAKey.from_private_key\<close> on the environment variable;
  \<^item> \<open>ssh_connect\<close>: \<^verbatim>\<open>client.connect(hostname, username, pkey, password)\<close>;
  \<^item> \<open>exec_command\<close>: \<^verbatim>\<open>client.exec_command(command)\<close> with the exit status and
    the lines of the two output streams;
  \<^item> \<open>sftp_call\<close>: \<^verbatim>\<open>open_sftp\<close>, \<^verbatim>\<open>put\<close>, \<^verbatim>\<open>close\<close>;
  \<^item> \<open>create_group\<close>, \<open>authorize_ingress\<close>, \<open>describe_security_groups\<close> (the
    \<^verbatim>\<open>GroupId\<close>s of \<^verbatim>\<open>response['SecurityGroups']\<close>), \<open>delete_group\<close>.
\<close>

record env =
  instance_call :: "event list \<Rightarrow> lifecycle \<Rightarrow> string \<Rightarrow> exn option"
  load_key :: "event list \<Rightarrow> string option \<Rightarrow> exn + string"
  ssh_connect ::
    "event list \<Rightarrow> nat \<Rightarrow> string option \<Rightarrow> string \<Rightarrow> string \<Rightarrow> string option \<Rightarrow> exn option"
  exec_command :: "event list \<Rightarrow> nat \<Rightarrow> string \<Rightarrow> exn + (int \<times> string list \<times> string list)"
  sftp_call :: "event list \<Rightarrow> nat \<Rightarrow> sftp_op \<Rightarrow> exn option"
  create_group :: "event list \<Rightarrow> string \<Rightarrow> string \<Rightarrow> exn + string"
  authorize_ingress :: "event list \<Rightarrow> string \<Rightarrow> exn option"
  describe_security_groups :: "event list \<Rightarrow> string list \<Rightarrow> exn + string list"
  delete_group :: "event list \<Rightarrow> bool \<Rightarrow> string \<Rightarrow> exn option"

text \<open>
  The fields of \<^verbatim>\<open>InstanceManager\<close> that the modelled methods read or write, the
  trace, and the number of SSH client objects created so far.
\<close>

record manager =
  instances :: "ec2_instance list"
  ssh_clients :: "string \<rightharpoonup> nat"
  environment_configuration :: bool
  key_file :: "string option"
  username :: string
  home_directory :: string
  security_group_ids :: "string list option"
  security_group_created :: bool
  trace :: "event list"
  next_client :: nat

text \<open>The \<^verbatim>\<open>instances\<close> parameter: \<^verbatim>\<open>None\<close>, one instance that is not iterable, or a list.\<close>

datatype subset = NoSubset | Single ec2_instance | Collection "ec2_instance list"

section \<open>Printing\<close>

definition newline :: string where
  "newline = [CHR 0x0A]"

definition emit :: "event \<Rightarrow> manager \<Rightarrow> manager" where
  "emit e s = s\<lparr>trace := trace s @ [e]\<rparr>"

text \<open>What \<^verbatim>\<open>print(msg)\<close> writes.\<close>

definition line :: "string \<Rightarrow> event" where
  "line msg = Print (msg @ newline)"

definition py_print :: "string \<Rightarrow> manager \<Rightarrow> manager" where
  "py_print msg s = emit (line msg) s"

fun print_lines :: "string list \<Rightarrow> manager \<Rightarrow> manager" where
  "print_lines [] s = s"
| "print_lines (l # ls) s = print_lines ls (emit (Print l) s)"

fun str_nat :: "nat \<Rightarrow> string" where
  "str_nat n =
     (if n < 10 then [char_of (48 + n)]
      else str_nat (n div 10) @ [char_of (48 + n mod 10)])"

definition str_int :: "int \<Rightarrow> string" where
  "str_int k = (if k < 0 then CHR ''-'' # str_nat (nat (- k)) else str_nat (nat k))"

definition str_opt :: "string option \<Rightarrow> string" where
  "str_opt a = (case a of None \<Rightarrow> ''None'' | Some x \<Rightarrow> x)"

text \<open>\<^verbatim>\<open>sub in s\<close> on strings.\<close>

fun str_contains :: "string \<Rightarrow> string \<Rightarrow> bool" where
  "str_contains sub [] = (sub = [])"
| "str_contains sub (c # cs) = (prefix sub (c # cs) \<or> str_contains sub cs)"

text \<open>\<^verbatim>\<open>os.path.join\<close> of two components, as \<^verbatim>\<open>posixpath\<close> has it.\<close>

definition path_join :: "string \<Rightarrow> string \<Rightarrow> string" where
  "path_join a b =
     (if b \<noteq> [] \<and> hd b = CHR ''/'' then b
      else if a = [] \<or> last a = CHR ''/'' then a @ b
      else a @ ''/'' @ b)"

section \<open>Subset validation\<close>

definition not_tracked_text :: string where
  "not_tracked_text =
     ''TypeError: Instances provided in parameters do not exist in InstanceManager object''"

text \<open>
  \<^verbatim>\<open>instance in self.instances\<close>. The instances are boto3 resource objects, and two
  of them are equal when they are of the same class and carry the same identifier: whatever
  else a handle holds (its address, loaded or not) plays no part in the comparison.
\<close>

definition known :: "manager \<Rightarrow> ec2_instance \<Rightarrow> bool" where
  "known s i = (id_inst i \<in> set (map id_inst (instances s)))"

text \<open>The loop of \<^verbatim>\<open>__parse_instances\<close>.\<close>

fun check_instances :: "ec2_instance list \<Rightarrow> manager \<Rightarrow> (exn + unit) \<times> manager" where
  "check_instances [] s = (Inr (), s)"
| "check_instances (i # rest) s =
     (if \<not> known s i
      then (Inl TypeError, py_print not_tracked_text s)
      else check_instances rest s)"

definition parse_instances :: "subset \<Rightarrow> manager \<Rightarrow> (exn + ec2_instance list) \<times> manager" where
  "parse_instances arg s =
     (case arg of
        NoSubset \<Rightarrow> (Inr (instances s), s)
      | Single i \<Rightarrow>
          (case check_instances [i] s of
             (Inl e, s') \<Rightarrow> (Inl e, s')
           | (Inr u, s') \<Rightarrow> (Inr [i], s'))
      | Collection xs \<Rightarrow>
          (case check_instances xs s of
             (Inl e, s') \<Rightarrow> (Inl e, s')
           | (Inr u, s') \<Rightarrow> (Inr xs, s')))"

text \<open>
  The instances an argument selects once it has passed validation: all tracked ones for
  \<^verbatim>\<open>None\<close>, the one-element list for a bare instance, the collection itself otherwise.
\<close>

definition selected :: "subset \<Rightarrow> manager \<Rightarrow> ec2_instance list" where
  "selected arg s =
     (case arg of NoSubset \<Rightarrow> instances s | Single i \<Rightarrow> [i] | Collection xs \<Rightarrow> xs)"

section \<open>Sessions: closing\<close>

definition no_connection_text :: "ec2_instance \<Rightarrow> string" where
  "no_connection_text i = ''Instance '' @ id_inst i @ '' does not have an open SSH connection''"

fun close_loop :: "bool \<Rightarrow> ec2_instance list \<Rightarrow> manager \<Rightarrow> manager" where
  "close_loop suppress_warning [] s = s"
| "close_loop suppress_warning (i # rest) s =
     close_loop suppress_warning rest
       (case ssh_clients s (id_inst i) of
          Some c \<Rightarrow> emit (Close c) s
        | None \<Rightarrow>
            if \<not> suppress_warning
            then py_print (no_connection_text i) s
            else s)"

definition close_instance_connections ::
  "subset \<Rightarrow> bool \<Rightarrow> manager \<Rightarrow> (exn + unit) \<times> manager" where
  "close_instance_connections arg suppress_warning s =
     (case parse_instances arg s of
        (Inl e, s') \<Rightarrow> (Inl e, s')
      | (Inr xs, s') \<Rightarrow> (Inr (), close_loop suppress_warning xs s'))"

section \<open>Instance lifecycle\<close>

text \<open>
  The first loop of \<^verbatim>\<open>terminate_instances\<close>, \<^verbatim>\<open>start_instances\<close> and
  \<^verbatim>\<open>stop_instances\<close>: print the notice, then make the call. An exception of the call
  leaves the loop and the method.
\<close>

definition notice_text :: "string \<Rightarrow> ec2_instance \<Rightarrow> string" where
  "notice_text notice i = notice @ '' '' @ id_inst i"

definition reached_text :: "ec2_instance \<Rightarrow> string \<Rightarrow> string" where
  "reached_text i reached = ''Instance '' @ id_inst i @ '' '' @ reached"

fun request_loop ::
  "env \<Rightarrow> lifecycle \<Rightarrow> string \<Rightarrow> ec2_instance list \<Rightarrow> manager \<Rightarrow> (exn + unit) \<times> manager" where
  "request_loop E op notice [] s = (Inr (), s)"
| "request_loop E op notice (i # rest) s =
     (let s1 = py_print (notice_text notice i) s;
          s2 = emit (Lifecycle op (id_inst i)) s1
      in case instance_call E (trace s1) op (id_inst i) of
           Some e \<Rightarrow> (Inl e, s2)
         | None \<Rightarrow> request_loop E op notice rest s2)"

text \<open>The second loop, run when the wait flag is set: make the blocking call, then print.\<close>

fun wait_loop ::
  "env \<Rightarrow> lifecycle \<Rightarrow> string \<Rightarrow> ec2_instance list \<Rightarrow> manager \<Rightarrow> (exn + unit) \<times> manager" where
  "wait_loop E op reached [] s = (Inr (), s)"
| "wait_loop E op reached (i # rest) s =
     (let s1 = emit (Lifecycle op (id_inst i)) s
      in case instance_call E (trace s) op (id_inst i) of
           Some e \<Rightarrow> (Inl e, s1)
         | None \<Rightarrow>
             wait_loop E op reached rest
               (py_print (reached_text i reached) s1))"

definition terminate_instances ::
  "env \<Rightarrow> subset \<Rightarrow> bool \<Rightarrow> manager \<Rightarrow> (exn + unit) \<times> manager" where
  "terminate_instances E arg wait_until_terminated s =
     (case parse_instances arg s of
        (Inl e, s0) \<Rightarrow> (Inl e, s0)
      | (Inr xs, s0) \<Rightarrow>
          (case request_loop E Terminate ''Terminating instance'' xs s0 of
             (Inl e, s1) \<Rightarrow> (Inl e, s1)
           | (Inr u, s1) \<Rightarrow>
               (case (if wait_until_terminated
                      then wait_loop E WaitUntilTerminated ''terminated'' xs s1
                      else (Inr (), s1)) of
                  (Inl e, s2) \<Rightarrow> (Inl e, s2)
                | (Inr u, s2) \<Rightarrow> close_instance_connections (Collection xs) True s2)))"

definition start_instances ::
  "env \<Rightarrow> subset \<Rightarrow> bool \<Rightarrow> manager \<Rightarrow> (exn + unit) \<times> manager" where
  "start_instances E arg wait_until_running s =
     (case parse_instances arg s of
        (Inl e, s0) \<Rightarrow> (Inl e, s0)
      | (Inr xs, s0) \<Rightarrow>
          (case request_loop E Start ''Starting instance'' xs s0 of
             (Inl e, s1) \<Rightarrow> (Inl e, s1)
           | (Inr u, s1) \<Rightarrow>
               (if wait_until_running
                then wait_loop E WaitUntilRunning ''running'' xs s1
                else (Inr (), s1))))"

definition stop_instances ::
  "env \<Rightarrow> subset \<Rightarrow> bool \<Rightarrow> manager \<Rightarrow> (exn + unit) \<times> manager" where
  "stop_instances E arg wait_until_stopped s =
     (case parse_instances arg s of
        (Inl e, s0) \<Rightarrow> (Inl e, s0)
      | (Inr xs, s0) \<Rightarrow>
          (case request_loop E Stop ''Terminating instance'' xs s0 of
             (Inl e, s1) \<Rightarrow> (Inl e, s1)
           | (Inr u, s1) \<Rightarrow>
               (case (if wait_until_stopped
                      then wait_loop E WaitUntilStopped ''stopped'' xs s1
                      else (Inr (), s1)) of
                  (Inl e, s2) \<Rightarrow> (Inl e, s2)
                | (Inr u, s2) \<Rightarrow> close_instance_connections (Collection xs) True s2)))"

section \<open>Sessions: connecting\<close>

text \<open>
  The body of the \<^verbatim>\<open>try\<close> block of \<^verbatim>\<open>connect_to_instances\<close>, one connection attempt:
  a new client object, the key, the connection; on success the previous client of the
  instance, if there is one, is closed and the new one is stored under the instance's
  identifier.
\<close>

definition try_connect ::
  "env \<Rightarrow> ec2_instance \<Rightarrow> string option \<Rightarrow> manager \<Rightarrow> (exn + unit) \<times> manager" where
  "try_connect E inst password s =
     (let client = next_client s;
          s1 = s\<lparr>next_client := Suc client\<rparr>
      in case load_key E (trace s1) (key_file s1) of
           Inl e \<Rightarrow> (Inl e, s1)
         | Inr key \<Rightarrow>
             (let s2 = emit (Connect client (public_ip_address inst) (username s1) key password) s1
              in case ssh_connect E (trace s1) client (public_ip_address inst) (username s1) key password of
                   Some e \<Rightarrow> (Inl e, s2)
                 | None \<Rightarrow>
                     (let s3 = (case ssh_clients s2 (id_inst inst) of
                                  Some old \<Rightarrow> emit (Close old) s2
                                | None \<Rightarrow> s2)
                      in (Inr (), s3\<lparr>ssh_clients := (ssh_clients s3)(id_inst inst \<mapsto> client)\<rparr>))))"

text \<open>
  The three \<^verbatim>\<open>except\<close> clauses have one shape: at the last attempt re-raise, otherwise
  print and sleep. \<open>None\<close> is an exception that no clause catches.
\<close>

definition retry_text :: "exn \<Rightarrow> string option" where
  "retry_text e =
     (case e of
        TimeoutError \<Rightarrow> Some '' timed out. Trying again...''
      | NoValidConnectionsError \<Rightarrow> Some '' failed. Trying again...''
      | AuthenticationException \<Rightarrow> Some '' failed authentication. Trying again...''
      | _ \<Rightarrow> None)"

definition retry_message :: "int \<Rightarrow> ec2_instance \<Rightarrow> string \<Rightarrow> string" where
  "retry_message connection_attempts inst tail =
     ''Connection attempt #'' @ str_int connection_attempts @ '' for IP address ''
       @ str_opt (public_ip_address inst) @ tail"

text \<open>
  The inner loop, \<^verbatim>\<open>for connection_attempts in range(1, max_attempts + 1)\<close>, over the
  attempt numbers still to come.
\<close>

fun attempt_loop ::
  "env \<Rightarrow> ec2_instance \<Rightarrow> string option \<Rightarrow> int \<Rightarrow> int list \<Rightarrow> manager \<Rightarrow> (exn + unit) \<times> manager" where
  "attempt_loop E inst password max_attempts [] s = (Inr (), s)"
| "attempt_loop E inst password max_attempts (connection_attempts # rest) s =
     (case try_connect E inst password s of
        (Inr u, s1) \<Rightarrow> (Inr (), s1)
      | (Inl e, s1) \<Rightarrow>
          (case retry_text e of
             None \<Rightarrow> (Inl e, s1)
           | Some tail \<Rightarrow>
               if connection_attempts = max_attempts then (Inl e, s1)
               else attempt_loop E inst password max_attempts rest
                      (emit (Sleep 10) (py_print (retry_message connection_attempts inst tail) s1))))"

text \<open>The outer loop, over the instances.\<close>

fun connect_loop ::
  "env \<Rightarrow> string option \<Rightarrow> int \<Rightarrow> ec2_instance list \<Rightarrow> manager \<Rightarrow> (exn + unit) \<times> manager" where
  "connect_loop E password max_attempts [] s = (Inr (), s)"
| "connect_loop E password max_attempts (inst # rest) s =
     (case attempt_loop E inst password max_attempts [1..max_attempts] s of
        (Inl e, s1) \<Rightarrow> (Inl e, s1)
      | (Inr u, s1) \<Rightarrow> connect_loop E password max_attempts rest s1)"

definition connect_to_instances ::
  "env \<Rightarrow> subset \<Rightarrow> int \<Rightarrow> string option \<Rightarrow> manager \<Rightarrow> (exn + unit) \<times> manager" where
  "connect_to_instances E arg max_attempts password s =
     (case parse_instances arg s of
        (Inl e, s0) \<Rightarrow> (Inl e, s0)
      | (Inr xs, s0) \<Rightarrow> connect_loop E password max_attempts xs s0)"

section \<open>Remote operations\<close>

text \<open>One round of the loop of \<^verbatim>\<open>execute_command\<close>.\<close>

definition execute_one ::
  "env \<Rightarrow> string \<Rightarrow> ec2_instance \<Rightarrow> manager \<Rightarrow> (exn + unit) \<times> manager" where
  "execute_one E command inst s =
     (case ssh_clients s (id_inst inst) of
        None \<Rightarrow> (Inl (KeyError (id_inst inst)), s)
      | Some client \<Rightarrow>
          (let s1 = emit (ExecCommand client command) s
           in case exec_command E (trace s) client command of
                Inl e \<Rightarrow> (Inl e, s1)
              | Inr (exit_status, stdout, stderr) \<Rightarrow>
                  (let s2 = emit (RecvExitStatus client) s1
                   in if exit_status = 0 then (Inr (), print_lines stdout s2)
                      else (Inr (), print_lines stderr s2))))"

fun execute_loop ::
  "env \<Rightarrow> string \<Rightarrow> ec2_instance list \<Rightarrow> manager \<Rightarrow> (exn + unit) \<times> manager" where
  "execute_loop E command [] s = (Inr (), s)"
| "execute_loop E command (inst # rest) s =
     (case execute_one E command inst s of
        (Inl e, s1) \<Rightarrow> (Inl e, s1)
      | (Inr u, s1) \<Rightarrow> execute_loop E command rest s1)"

definition executing_text :: "string \<Rightarrow> string" where
  "executing_text command = ''Executing: '' @ command"

definition execute_command ::
  "env \<Rightarrow> string \<Rightarrow> subset \<Rightarrow> manager \<Rightarrow> (exn + unit) \<times> manager" where
  "execute_command E command arg s =
     (case parse_instances arg (py_print (executing_text command) s) of
        (Inl e, s0) \<Rightarrow> (Inl e, s0)
      | (Inr xs, s0) \<Rightarrow> execute_loop E command xs s0)"

text \<open>One call on the file transfer channel of a client.\<close>

definition sftp_step :: "env \<Rightarrow> nat \<Rightarrow> sftp_op \<Rightarrow> manager \<Rightarrow> (exn + unit) \<times> manager" where
  "sftp_step E client op s =
     (case sftp_call E (trace s) client op of
        Some e \<Rightarrow> (Inl e, emit (Sftp client op) s)
      | None \<Rightarrow> (Inr (), emit (Sftp client op) s))"

definition upload_one ::
  "env \<Rightarrow> string \<Rightarrow> string \<Rightarrow> ec2_instance \<Rightarrow> manager \<Rightarrow> (exn + unit) \<times> manager" where
  "upload_one E source_file destination_file inst s =
     (case ssh_clients s (id_inst inst) of
        None \<Rightarrow> (Inl (KeyError (id_inst inst)), s)
      | Some client \<Rightarrow>
          (case sftp_step E client OpenSftp s of
             (Inl e, s1) \<Rightarrow> (Inl e, s1)
           | (Inr u, s1) \<Rightarrow>
               (case sftp_step E client
                       (Put source_file (path_join (home_directory s1) destination_file)) s1 of
                  (Inl e, s2) \<Rightarrow> (Inl e, s2)
                | (Inr u, s2) \<Rightarrow> sftp_step E client CloseSftp s2)))"

fun upload_loop ::
  "env \<Rightarrow> string \<Rightarrow> string \<Rightarrow> ec2_instance list \<Rightarrow> manager \<Rightarrow> (exn + unit) \<times> manager" where
  "upload_loop E source_file destination_file [] s = (Inr (), s)"
| "upload_loop E source_file destination_file (inst # rest) s =
     (case upload_one E source_file destination_file inst s of
        (Inl e, s1) \<Rightarrow> (Inl e, s1)
      | (Inr u, s1) \<Rightarrow> upload_loop E source_file destination_file rest s1)"

definition upload_file_to_instance ::
  "env \<Rightarrow> string \<Rightarrow> string \<Rightarrow> subset \<Rightarrow> manager \<Rightarrow> (exn + unit) \<times> manager" where
  "upload_file_to_instance E source_file destination_file arg s =
     (case parse_instances arg s of
        (Inl e, s0) \<Rightarrow> (Inl e, s0)
      | (Inr xs, s0) \<Rightarrow> upload_loop E source_file destination_file xs s0)"

section \<open>Security group\<close>

definition group_name :: string where
  "group_name = ''IMPAQ_HPC_TM''"

definition group_description :: string where
  "group_description = ''Used for HPC topic modeling''"

definition duplicate_code :: string where
  "duplicate_code = ''InvalidGroup.Duplicate''"

definition ingress_permissions :: "(string \<times> nat \<times> nat \<times> string \<times> string) list" where
  "ingress_permissions =
     [(''tcp'', 80, 80, ''0.0.0.0/0'', ''::/0''), (''tcp'', 22, 22, ''0.0.0.0/0'', ''::/0'')]"

text \<open>The \<^verbatim>\<open>try\<close> block of \<^verbatim>\<open>create_security_group\<close>.\<close>

definition create_and_authorize :: "env \<Rightarrow> manager \<Rightarrow> (exn + unit) \<times> manager" where
  "create_and_authorize E s =
     (let s1 = emit (CreateSecurityGroup group_name group_description) s
      in case create_group E (trace s) group_name group_description of
           Inl e \<Rightarrow> (Inl e, s1)
         | Inr group_id \<Rightarrow>
             (let s2 = emit (AuthorizeIngress group_id ingress_permissions) s1
              in case authorize_ingress E (trace s1) group_id of
                   Some e \<Rightarrow> (Inl e, s2)
                 | None \<Rightarrow>
                     (Inr (), s2\<lparr>security_group_ids := Some [group_id],
                                 security_group_created := True\<rparr>)))"

text \<open>
  The handler of \<^verbatim>\<open>botocore.exceptions.ClientError\<close>, for the error whose \<^verbatim>\<open>str\<close>
  is \<open>msg\<close>. \<^verbatim>\<open>response['SecurityGroups'][0]\<close> on an empty list is an \<open>IndexError\<close>.
\<close>

definition on_client_error :: "env \<Rightarrow> string \<Rightarrow> manager \<Rightarrow> (exn + unit) \<times> manager" where
  "on_client_error E msg s =
     (let s1 = py_print ''Security group already created'' s
      in if str_contains duplicate_code msg
         then (let s2 = emit (DescribeSecurityGroups [group_name]) s1
               in case describe_security_groups E (trace s1) [group_name] of
                    Inl e \<Rightarrow> (Inl e, s2)
                  | Inr [] \<Rightarrow> (Inl IndexError, s2)
                  | Inr (group_id # others) \<Rightarrow>
                      (Inr (), s2\<lparr>security_group_ids := Some [group_id]\<rparr>))
         else (Inl (ClientError msg), s1))"

definition create_security_group :: "env \<Rightarrow> manager \<Rightarrow> (exn + unit) \<times> manager" where
  "create_security_group E s =
     (case create_and_authorize E s of
        (Inr u, s1) \<Rightarrow> (Inr (), s1)
      | (Inl e, s1) \<Rightarrow>
          (case e of
             ClientError msg \<Rightarrow> on_client_error E msg s1
           | _ \<Rightarrow> (Inl e, s1)))"

definition deleted_text :: "string \<Rightarrow> string" where
  "deleted_text security_group_id = ''Security group '' @ security_group_id @ '' deleted''"

fun delete_loop :: "env \<Rightarrow> string list \<Rightarrow> manager \<Rightarrow> (exn + unit) \<times> manager" where
  "delete_loop E [] s = (Inr (), s)"
| "delete_loop E (security_group_id # rest) s =
     (let s1 = emit (DeleteSecurityGroup (environment_configuration s) security_group_id) s
      in case delete_group E (trace s) (environment_configuration s) security_group_id of
           None \<Rightarrow>
             delete_loop E rest (py_print (deleted_text security_group_id) s1)
         | Some e \<Rightarrow>
             (case e of
                ClientError msg \<Rightarrow> delete_loop E rest (py_print msg s1)
              | _ \<Rightarrow> (Inl e, s1)))"

text \<open>Iterating over \<^verbatim>\<open>None\<close> is a \<open>TypeError\<close>.\<close>

definition delete_security_group :: "env \<Rightarrow> manager \<Rightarrow> (exn + unit) \<times> manager" where
  "delete_security_group E s =
     (case security_group_ids s of
        None \<Rightarrow> (Inl TypeError, s)
      | Some ids \<Rightarrow> delete_loop E ids s)"

section \<open>Cleanup at exit\<close>

definition cleanup :: "env \<Rightarrow> manager \<Rightarrow> (exn + unit) \<times> manager" where
  "cleanup E s =
     (case terminate_instances E NoSubset (security_group_created s) s of
        (Inl e, s1) \<Rightarrow> (Inl e, s1)
      | (Inr u, s1) \<Rightarrow>
          if security_group_created s1 then delete_security_group E s1
          else (Inr (), s1))"

section \<open>The reporting of \<^verbatim>\<open>execute_command\<close>, from the specification\<close>


section \<open>Reading the trace\<close>

fun is_print :: "event \<Rightarrow> bool" where
  "is_print (Print text) = True"
| "is_print e = False"

fun is_connect :: "event \<Rightarrow> bool" where
  "is_connect (Connect client host user key password) = True"
| "is_connect e = False"

fun is_close :: "event \<Rightarrow> bool" where
  "is_close (Close client) = True"
| "is_close e = False"

text \<open>The events between two states, and those of them that are not output.\<close>

definition new_events :: "manager \<Rightarrow> manager \<Rightarrow> event list" where
  "new_events s s' = drop (length (trace s)) (trace s')"

definition effects :: "manager \<Rightarrow> manager \<Rightarrow> event list" where
  "effects s s' = filter (\<lambda>e. \<not> is_print e) (new_events s s')"

text \<open>\<open>s'\<close> is \<open>s\<close> with \<open>evs\<close> appended to the trace, every field of the manager as it was.\<close>

definition extends :: "manager \<Rightarrow> event list \<Rightarrow> manager \<Rightarrow> bool" where
  "extends s evs s' = (s' = s\<lparr>trace := trace s @ evs\<rparr>)"

text \<open>One \<open>Close\<close> for each listed instance whose identifier is a key of \<^verbatim>\<open>ssh_clients\<close>.\<close>

definition close_events :: "manager \<Rightarrow> ec2_instance list \<Rightarrow> event list" where
  "close_events s xs = map Close (List.map_filter (\<lambda>i. ssh_clients s (id_inst i)) xs)"

definition calls :: "lifecycle \<Rightarrow> ec2_instance list \<Rightarrow> event list" where
  "calls op xs = map (\<lambda>i. Lifecycle op (id_inst i)) xs"

definition request_events :: "lifecycle \<Rightarrow> string \<Rightarrow> ec2_instance list \<Rightarrow> event list" where
  "request_events op notice xs =
     concat (map (\<lambda>i. [line (notice_text notice i), Lifecycle op (id_inst i)]) xs)"

definition wait_events :: "lifecycle \<Rightarrow> string \<Rightarrow> ec2_instance list \<Rightarrow> event list" where
  "wait_events op reached xs =
     concat (map (\<lambda>i. [Lifecycle op (id_inst i), line (reached_text i reached)]) xs)"



text \<open>
  From \<open>s\<close> to \<open>s'\<close> client objects were only created, and every entry of
  \<^verbatim>\<open>ssh_clients\<close> is as it was or holds a client created in between.
\<close>

definition advanced :: "manager \<Rightarrow> manager \<Rightarrow> bool" where
  "advanced s s' =
     (next_client s \<le> next_client s' \<and>
      (\<forall>k. ssh_clients s' k = ssh_clients s k \<or>
           (\<exists>c. ssh_clients s' k = Some c \<and> next_client s \<le> c \<and> c < next_client s')))"

section \<open>Concrete managers and worlds\<close>

definition inst_a :: ec2_instance where
  "inst_a = \<lparr>id_inst = ''i-a'', public_ip_address = Some ''10.0.0.1''\<rparr>"

definition inst_b :: ec2_instance where
  "inst_b = \<lparr>id_inst = ''i-b'', public_ip_address = Some ''10.0.0.2''\<rparr>"

text \<open>An instance that no manager below tracks.\<close>

definition inst_c :: ec2_instance where
  "inst_c = \<lparr>id_inst = ''i-c'', public_ip_address = Some ''10.0.0.3''\<rparr>"

text \<open>A manager that tracks two instances and has no session yet.\<close>

definition fresh_manager :: manager where
  "fresh_manager =
     \<lparr>instances = [inst_a, inst_b], ssh_clients = Map.empty,
      environment_configuration = False, key_file = Some ''key.pem'',
      username = ''ubuntu'', home_directory = ''/home/ubuntu/'',
      security_group_ids = None, security_group_created = False,
      trace = [], next_client = 0\<rparr>"

text \<open>The same manager with client 0 connected to the first instance.\<close>

definition connected_manager :: manager where
  "connected_manager = fresh_manager\<lparr>ssh_clients := [''i-a'' \<mapsto> 0], next_client := 1\<rparr>"


text \<open>A second handle on the first instance, created apart and with no address loaded.\<close>

definition other_handle_a :: ec2_instance where
  "other_handle_a = \<lparr>id_inst = ''i-a'', public_ip_address = None\<rparr>"

text \<open>A manager that created its security group and has a session.\<close>

definition owner_manager :: manager where
  "owner_manager =
     connected_manager\<lparr>security_group_ids := Some [''sg-1''], security_group_created := True\<rparr>"

text \<open>A world in which every call succeeds.\<close>

definition quiet_world :: env where
  "quiet_world =
     \<lparr>instance_call = (\<lambda>h op i. None),
      load_key = (\<lambda>h f. Inr ''key''),
      ssh_connect = (\<lambda>h c host user key pw. None),
      exec_command = (\<lambda>h c cmd. Inr (0, [''ok''], [])),
      sftp_call = (\<lambda>h c op. None),
      create_group = (\<lambda>h name description. Inr ''sg-1''),
      authorize_ingress = (\<lambda>h g. None),
      describe_security_groups = (\<lambda>h names. Inr [''sg-1'']),
      delete_group = (\<lambda>h c g. None)\<rparr>"

text \<open>A world in which no connection to the first instance is answered in time.\<close>

definition unreachable_a_world :: env where
  "unreachable_a_world =
     quiet_world\<lparr>ssh_connect :=
       (\<lambda>h c host user key pw. if host = Some ''10.0.0.1'' then Some TimeoutError else None)\<rparr>"



text \<open>
  A world that holds at most one security group of a name: creating it again is answered with
  the duplicate error.
\<close>

definition duplicate_text :: string where
  "duplicate_text = ''An error occurred (InvalidGroup.Duplicate)''"

definition one_group_world :: env where
  "one_group_world =
     quiet_world\<lparr>create_group :=
       (\<lambda>h name description.
          if CreateSecurityGroup name description \<in> set h
          then Inl (ClientError duplicate_text) else Inr ''sg-1'')\<rparr>"

text \<open>A world that refuses to create security groups.\<close>

definition denied_world :: env where
  "denied_world =
     quiet_world\<lparr>create_group :=
       (\<lambda>h name description. Inl (ClientError ''An error occurred (UnauthorizedOperation)''))\<rparr>"

section \<open>Properties\<close>

subsection \<open>Appending to the trace\<close>

lemma extends_refl: "extends s [] s"
  by (simp add: extends_def)

lemma extends_emit: "extends s [e] (emit e s)"
  by (simp add: extends_def emit_def)

lemma extends_py_print: "extends s [line m] (py_print m s)"
  by (simp add: py_print_def extends_emit)

lemma extends_trans: "extends s a s1 \<Longrightarrow> extends s1 b s2 \<Longrightarrow> extends s (a @ b) s2"
  by (simp add: extends_def)

lemma extends_new_events: "extends s evs s' \<Longrightarrow> new_events s s' = evs"
  by (simp add: extends_def new_events_def)

lemma extends_effects: "extends s evs s' \<Longrightarrow> effects s s' = filter (\<lambda>e. \<not> is_print e) evs"
  by (simp add: effects_def extends_new_events)

lemma extends_fields:
  assumes "extends s evs s'"
  shows "instances s' = instances s" and "ssh_clients s' = ssh_clients s"
    and "security_group_ids s' = security_group_ids s"
    and "security_group_created s' = security_group_created s"
    and "environment_configuration s' = environment_configuration s"
    and "trace s' = trace s @ evs"
  using assms by (simp_all add: extends_def)

subsection \<open>The loops of the lifecycle methods\<close>

text \<open>
  Each loop that returns has appended exactly the events listed for it and has changed
  nothing else.
\<close>

lemma close_events_Cons:
  "close_events s (i # xs) =
     (case ssh_clients s (id_inst i) of None \<Rightarrow> [] | Some c \<Rightarrow> [Close c]) @ close_events s xs"
  by (simp add: close_events_def List.map_filter_simps split: option.splits)

lemma close_events_extends: "extends s evs s' \<Longrightarrow> close_events s' xs = close_events s xs"
  by (simp add: close_events_def extends_def)

lemma close_loop_suppressed:
  "extends s (close_events s xs) (close_loop True xs s)"
proof (induction xs arbitrary: s)
  case Nil
  show ?case by (simp add: close_events_def List.map_filter_simps extends_refl)
next
  case (Cons i xs)
  show ?case
  proof (cases "ssh_clients s (id_inst i)")
    case None
    then show ?thesis using Cons.IH [of s] by (simp add: close_events_Cons)
  next
    case (Some c)
    have "extends s ([Close c] @ close_events (emit (Close c) s) xs) (close_loop True xs (emit (Close c) s))"
      by (rule extends_trans [OF extends_emit Cons.IH])
    then show ?thesis
      using Some close_events_extends [OF extends_emit [of s "Close c"], of xs]
      by (simp add: close_events_Cons)
  qed
qed

lemma request_loop_exact:
  "request_loop E op notice xs s = (Inr (), s') \<Longrightarrow> extends s (request_events op notice xs) s'"
proof (induction xs arbitrary: s)
  case Nil
  then show ?case by (simp add: request_events_def extends_refl)
next
  case (Cons i xs)
  define s2 where "s2 = emit (Lifecycle op (id_inst i)) (py_print (notice_text notice i) s)"
  have a: "extends s ([line (notice_text notice i)] @ [Lifecycle op (id_inst i)]) s2"
    unfolding s2_def by (rule extends_trans [OF extends_py_print extends_emit])
  from Cons.prems have "request_loop E op notice xs s2 = (Inr (), s')"
    by (simp add: Let_def s2_def split: option.splits)
  from extends_trans [OF a Cons.IH [OF this]] show ?case
    by (simp add: request_events_def)
qed

lemma wait_loop_exact:
  "wait_loop E op reached xs s = (Inr (), s') \<Longrightarrow> extends s (wait_events op reached xs) s'"
proof (induction xs arbitrary: s)
  case Nil
  then show ?case by (simp add: wait_events_def extends_refl)
next
  case (Cons i xs)
  define s2 where "s2 = py_print (reached_text i reached) (emit (Lifecycle op (id_inst i)) s)"
  have a: "extends s ([Lifecycle op (id_inst i)] @ [line (reached_text i reached)]) s2"
    unfolding s2_def by (rule extends_trans [OF extends_emit extends_py_print])
  from Cons.prems have "wait_loop E op reached xs s2 = (Inr (), s')"
    by (simp add: Let_def s2_def split: option.splits)
  from extends_trans [OF a Cons.IH [OF this]] show ?case
    by (simp add: wait_events_def)
qed

lemma is_print_line: "is_print (line m)"
  by (simp add: line_def)

lemma filter_request_events:
  "filter (\<lambda>e. \<not> is_print e) (request_events op notice xs) = calls op xs"
  by (induction xs) (simp_all add: request_events_def calls_def is_print_line)

lemma filter_wait_events:
  "filter (\<lambda>e. \<not> is_print e) (wait_events op reached xs) = calls op xs"
  by (induction xs) (simp_all add: wait_events_def calls_def is_print_line)

lemma filter_close_events:
  "filter (\<lambda>e. \<not> is_print e) (close_events s xs) = close_events s xs"
  by (simp add: close_events_def filter_map comp_def)

lemma request_loop_returns:
  "\<forall>h i. instance_call E h op i = None \<Longrightarrow> fst (request_loop E op notice xs s) = Inr ()"
  by (induction xs arbitrary: s) (simp_all add: Let_def)

lemma wait_loop_returns:
  "\<forall>h i. instance_call E h op i = None \<Longrightarrow> fst (wait_loop E op reached xs s) = Inr ()"
  by (induction xs arbitrary: s) (simp_all add: Let_def)


subsection \<open>Validation\<close>

lemma instances_py_print: "instances (py_print m s) = instances s"
  by (simp add: py_print_def emit_def)

lemma known_instances: "instances s' = instances s \<Longrightarrow> known s' = known s"
  by (rule ext) (simp add: known_def)

lemma known_py_print: "known (py_print m s) = known s"
  by (rule known_instances) (rule instances_py_print)

lemma known_tracked: "list_all (known s) (instances s)"
  by (simp add: list_all_iff known_def)

lemma check_instances_ok:
  "list_all (known s) xs \<Longrightarrow> check_instances xs s = (Inr (), s)"
  by (induction xs) auto

lemma check_instances_bad:
  "\<not> list_all (known s) xs \<Longrightarrow>
   check_instances xs s = (Inl TypeError, py_print not_tracked_text s)"
  by (induction xs) auto

lemma parse_instances_ok:
  "list_all (known s) (selected arg s) \<Longrightarrow>
   parse_instances arg s = (Inr (selected arg s), s)"
  by (cases arg) (simp_all add: parse_instances_def selected_def check_instances_ok)

lemma parse_instances_bad:
  "\<not> list_all (known s) (selected arg s) \<Longrightarrow>
   parse_instances arg s = (Inl TypeError, py_print not_tracked_text s)"
  by (cases arg) (simp_all add: parse_instances_def selected_def check_instances_bad known_tracked)

lemma selected_py_print: "selected arg (py_print m s) = selected arg s"
  by (cases arg) (simp_all add: selected_def instances_py_print)

subsection \<open>\<^verbatim>\<open>terminate_instances\<close> and \<^verbatim>\<open>delete_security_group\<close>\<close>

lemma terminate_instances_exact:
  assumes "terminate_instances E arg wait s = (Inr (), s')"
  shows "extends s
           (request_events Terminate ''Terminating instance'' (selected arg s)
            @ (if wait then wait_events WaitUntilTerminated ''terminated'' (selected arg s) else [])
            @ close_events s (selected arg s)) s'"
proof -
  let ?xs = "selected arg s"
  have valid: "list_all (known s) ?xs"
  proof (rule ccontr)
    assume "\<not> list_all (known s) ?xs"
    from parse_instances_bad [OF this] assms show False
      by (simp add: terminate_instances_def)
  qed
  note p = parse_instances_ok [OF valid]
  obtain r1 s1 where r1: "request_loop E Terminate ''Terminating instance'' ?xs s = (r1, s1)"
    by (cases "request_loop E Terminate ''Terminating instance'' ?xs s")
  with assms p have r1ok: "r1 = Inr ()"
    by (cases r1) (simp_all add: terminate_instances_def)
  note e1 = request_loop_exact [OF r1 [unfolded r1ok]]
  obtain r2 s2 where r2: "(if wait then wait_loop E WaitUntilTerminated ''terminated'' ?xs s1
                      else (Inr (), s1)) = (r2, s2)"
    by (cases "(if wait then wait_loop E WaitUntilTerminated ''terminated'' ?xs s1
                      else (Inr (), s1))")
  with assms p r1 r1ok have r2ok: "r2 = Inr ()"
    by (cases r2) (simp_all add: terminate_instances_def)
  have e2: "extends s1 (if wait then wait_events WaitUntilTerminated ''terminated'' ?xs else []) s2"
    using r2 r2ok by (cases wait) (auto intro: wait_loop_exact extends_refl)
  have i2: "instances s2 = instances s"
    using extends_fields(1) [OF e1] extends_fields(1) [OF e2] by simp
  have sel2: "selected (Collection ?xs) s2 = ?xs" by (simp add: selected_def)
  have p2: "parse_instances (Collection ?xs) s2 = (Inr ?xs, s2)"
    using parse_instances_ok [where arg = "Collection ?xs" and s = s2] valid
      known_instances [OF i2] sel2 by simp
  have s': "s' = close_loop True ?xs s2"
    using assms p r1 r1ok r2 r2ok p2
    by (simp add: terminate_instances_def close_instance_connections_def)
  have e3: "extends s2 (close_events s ?xs) s'"
    using close_loop_suppressed [of s2 ?xs] s'
      close_events_extends [OF extends_trans [OF e1 e2], of ?xs] by simp
  from extends_trans [OF extends_trans [OF e1 e2] e3] show ?thesis by simp
qed


lemma fst_collapse: "fst r = a \<Longrightarrow> r = (a, snd r)"
  by (cases r) simp

lemma terminate_instances_returns:
  assumes "\<forall>h op i. instance_call E h op i = None"
    and "list_all (known s) (selected arg s)"
  shows "fst (terminate_instances E arg wait s) = Inr ()"
proof -
  let ?xs = "selected arg s"
  note p = parse_instances_ok [OF assms(2)]
  have "fst (request_loop E Terminate ''Terminating instance'' ?xs s) = Inr ()"
    using assms(1) by (simp add: request_loop_returns)
  from fst_collapse [OF this] obtain s1 where
    r1: "request_loop E Terminate ''Terminating instance'' ?xs s = (Inr (), s1)" by blast
  have "fst (if wait then wait_loop E WaitUntilTerminated ''terminated'' ?xs s1
             else (Inr (), s1)) = Inr ()"
    using assms(1) by (simp add: wait_loop_returns)
  from fst_collapse [OF this] obtain s2 where
    r2: "(if wait then wait_loop E WaitUntilTerminated ''terminated'' ?xs s1
             else (Inr (), s1)) = (Inr (), s2)" by blast
  have i2: "instances s2 = instances s"
    using extends_fields(1) [OF request_loop_exact [OF r1]] r2
      extends_fields(1) [OF wait_loop_exact, of E WaitUntilTerminated "''terminated''" ?xs s1 s2]
    by (cases wait) simp_all
  have "parse_instances (Collection ?xs) s2 = (Inr ?xs, s2)"
    using parse_instances_ok [where arg = "Collection ?xs" and s = s2] assms(2)
      known_instances [OF i2] by (simp add: selected_def)
  then show ?thesis
    using p r1 r2 by (simp add: terminate_instances_def close_instance_connections_def)
qed

lemma delete_loop_effects:
  assumes "\<forall>h c g e. delete_group E h c g = Some e \<longrightarrow> (\<exists>m. e = ClientError m)"
  shows "\<exists>evs s'. delete_loop E ids s = (Inr (), s') \<and> extends s evs s' \<and>
           filter (\<lambda>e. \<not> is_print e) evs = map (DeleteSecurityGroup (environment_configuration s)) ids"
proof (induction ids arbitrary: s)
  case Nil
  show ?case by (auto intro: extends_refl)
next
  case (Cons g ids)
  let ?d = "DeleteSecurityGroup (environment_configuration s) g"
  define msg where "msg = (case delete_group E (trace s) (environment_configuration s) g of
      None \<Rightarrow> deleted_text g | Some (ClientError m) \<Rightarrow> m | Some e \<Rightarrow> [])"
  define s2 where "s2 = py_print msg (emit ?d s)"
  have step: "delete_loop E (g # ids) s = delete_loop E ids s2"
  proof (cases "delete_group E (trace s) (environment_configuration s) g")
    case None
    then show ?thesis by (simp add: Let_def s2_def msg_def)
  next
    case (Some e)
    with assms obtain m where "e = ClientError m" by blast
    with Some show ?thesis by (simp add: Let_def s2_def msg_def)
  qed
  have a: "extends s ([?d] @ [line msg]) s2"
    unfolding s2_def by (rule extends_trans [OF extends_emit extends_py_print])
  from Cons.IH [of s2] obtain b s' where b: "delete_loop E ids s2 = (Inr (), s')"
    "extends s2 b s'"
    "filter (\<lambda>e. \<not> is_print e) b = map (DeleteSecurityGroup (environment_configuration s2)) ids"
    by blast
  have "environment_configuration s2 = environment_configuration s"
    using extends_fields(5) [OF a] .
  with b(3) have "filter (\<lambda>e. \<not> is_print e) (([?d] @ [line msg]) @ b)
      = map (DeleteSecurityGroup (environment_configuration s)) (g # ids)"
    by (simp add: is_print_line)
  moreover have "delete_loop E (g # ids) s = (Inr (), s')"
    using step b(1) by simp
  moreover note extends_trans [OF a b(2)]
  ultimately show ?case by metis
qed

subsection \<open>Subsets: empty, unknown, bare, absent\<close>

text \<open>
  C9. An empty collection passes validation and every operation that takes a subset
  returns without an error and leaves the manager as it was: no lifecycle call, no change of
  \<^verbatim>\<open>ssh_clients\<close>, no remote operation, no event at all (\<^verbatim>\<open>execute_command\<close> has
  printed its \<^verbatim>\<open>Executing:\<close> line before it looks at the subset). The empty collection is
  not read as "all tracked instances": validation returns the empty list for it and the
  tracked list for \<^verbatim>\<open>None\<close> only.
\<close>

theorem empty_subset_is_no_op:
  "parse_instances (Collection []) s = (Inr [], s) \<and>
   parse_instances NoSubset s = (Inr (instances s), s) \<and>
   connect_to_instances E (Collection []) max_attempts password s = (Inr (), s) \<and>
   close_instance_connections (Collection []) suppress_warning s = (Inr (), s) \<and>
   start_instances E (Collection []) wait s = (Inr (), s) \<and>
   stop_instances E (Collection []) wait s = (Inr (), s) \<and>
   terminate_instances E (Collection []) wait s = (Inr (), s) \<and>
   execute_command E command (Collection []) s = (Inr (), py_print (executing_text command) s) \<and>
   upload_file_to_instance E source_file destination_file (Collection []) s = (Inr (), s)"
  by (simp add: parse_instances_def connect_to_instances_def close_instance_connections_def
      start_instances_def stop_instances_def terminate_instances_def execute_command_def
      upload_file_to_instance_def)

lemma parse_instances_Single:
  "parse_instances (Single i) s = parse_instances (Collection [i]) s"
  by (simp add: parse_instances_def)

lemma parse_instances_NoSubset:
  "parse_instances NoSubset s = parse_instances (Collection (instances s)) s"
  using parse_instances_ok [where arg = "Collection (instances s)" and s = s] known_tracked [of s]
  by (simp add: parse_instances_def selected_def)

text \<open>
  C3. When the subset holds an instance that is not tracked (no tracked instance has its
  identifier, which is how the instance objects compare), each of the seven operations
  raises the error of \<^verbatim>\<open>__parse_instances\<close> (the code's \<^verbatim>\<open>TypeError\<close>, the
  specification's UnknownInstanceError) and has done nothing but print: the manager is the one
  before the call with the printed lines appended to the trace, so no call on any instance, no
  session and no remote operation has happened. A bare instance is handled as the one-element
  collection, and \<^verbatim>\<open>None\<close> as the collection of all tracked instances.
\<close>

theorem unknown_instance_rejected:
  assumes "\<not> list_all (known s) (selected arg s)"
  shows
   "connect_to_instances E arg max_attempts password s = (Inl TypeError, py_print not_tracked_text s) \<and>
    close_instance_connections arg suppress_warning s = (Inl TypeError, py_print not_tracked_text s) \<and>
    start_instances E arg wait s = (Inl TypeError, py_print not_tracked_text s) \<and>
    stop_instances E arg wait s = (Inl TypeError, py_print not_tracked_text s) \<and>
    terminate_instances E arg wait s = (Inl TypeError, py_print not_tracked_text s) \<and>
    execute_command E command arg s =
      (Inl TypeError, py_print not_tracked_text (py_print (executing_text command) s)) \<and>
    upload_file_to_instance E source_file destination_file arg s =
      (Inl TypeError, py_print not_tracked_text s) \<and>
    effects s (py_print not_tracked_text s) = [] \<and>
    effects s (py_print not_tracked_text (py_print (executing_text command) s)) = [] \<and>
    ssh_clients (py_print not_tracked_text (py_print (executing_text command) s)) = ssh_clients s \<and>
    connect_to_instances E (Single i) max_attempts password s =
      connect_to_instances E (Collection [i]) max_attempts password s \<and>
    close_instance_connections (Single i) suppress_warning s =
      close_instance_connections (Collection [i]) suppress_warning s \<and>
    start_instances E (Single i) wait s = start_instances E (Collection [i]) wait s \<and>
    stop_instances E (Single i) wait s = stop_instances E (Collection [i]) wait s \<and>
    terminate_instances E (Single i) wait s = terminate_instances E (Collection [i]) wait s \<and>
    execute_command E command (Single i) s = execute_command E command (Collection [i]) s \<and>
    upload_file_to_instance E source_file destination_file (Single i) s =
      upload_file_to_instance E source_file destination_file (Collection [i]) s \<and>
    connect_to_instances E NoSubset max_attempts password s =
      connect_to_instances E (Collection (instances s)) max_attempts password s \<and>
    close_instance_connections NoSubset suppress_warning s =
      close_instance_connections (Collection (instances s)) suppress_warning s \<and>
    start_instances E NoSubset wait s = start_instances E (Collection (instances s)) wait s \<and>
    stop_instances E NoSubset wait s = stop_instances E (Collection (instances s)) wait s \<and>
    terminate_instances E NoSubset wait s = terminate_instances E (Collection (instances s)) wait s \<and>
    execute_command E command NoSubset s = execute_command E command (Collection (instances s)) s \<and>
    upload_file_to_instance E source_file destination_file NoSubset s =
      upload_file_to_instance E source_file destination_file (Collection (instances s)) s"
proof -
  note bad = parse_instances_bad [OF assms]
  have "\<not> list_all (known (py_print (executing_text command) s)) (selected arg (py_print (executing_text command) s))"
    using assms by (simp add: selected_py_print known_py_print)
  note bad_exec = parse_instances_bad [OF this]
  have ops:
    "connect_to_instances E arg max_attempts password s = (Inl TypeError, py_print not_tracked_text s)"
    "close_instance_connections arg suppress_warning s = (Inl TypeError, py_print not_tracked_text s)"
    "start_instances E arg wait s = (Inl TypeError, py_print not_tracked_text s)"
    "stop_instances E arg wait s = (Inl TypeError, py_print not_tracked_text s)"
    "terminate_instances E arg wait s = (Inl TypeError, py_print not_tracked_text s)"
    "upload_file_to_instance E source_file destination_file arg s =
      (Inl TypeError, py_print not_tracked_text s)"
    by (simp_all add: bad connect_to_instances_def close_instance_connections_def
        start_instances_def stop_instances_def terminate_instances_def
        upload_file_to_instance_def)
  have exec: "execute_command E command arg s =
      (Inl TypeError, py_print not_tracked_text (py_print (executing_text command) s))"
    by (simp add: bad_exec execute_command_def)
  have quiet:
    "effects s (py_print not_tracked_text s) = []"
    "effects s (py_print not_tracked_text (py_print (executing_text command) s)) = []"
    "ssh_clients (py_print not_tracked_text (py_print (executing_text command) s)) = ssh_clients s"
    by (simp_all add: effects_def new_events_def py_print_def emit_def is_print_line)
  have single:
    "connect_to_instances E (Single i) max_attempts password s =
      connect_to_instances E (Collection [i]) max_attempts password s"
    "close_instance_connections (Single i) suppress_warning s =
      close_instance_connections (Collection [i]) suppress_warning s"
    "start_instances E (Single i) wait s = start_instances E (Collection [i]) wait s"
    "stop_instances E (Single i) wait s = stop_instances E (Collection [i]) wait s"
    "terminate_instances E (Single i) wait s = terminate_instances E (Collection [i]) wait s"
    "execute_command E command (Single i) s = execute_command E command (Collection [i]) s"
    "upload_file_to_instance E source_file destination_file (Single i) s =
      upload_file_to_instance E source_file destination_file (Collection [i]) s"
    by (simp_all only: connect_to_instances_def close_instance_connections_def
        start_instances_def stop_instances_def terminate_instances_def execute_command_def
        upload_file_to_instance_def parse_instances_Single)
  have all_exec: "parse_instances NoSubset (py_print (executing_text command) s) =
      parse_instances (Collection (instances s)) (py_print (executing_text command) s)"
    using parse_instances_NoSubset [of "py_print (executing_text command) s"]
    by (simp only: instances_py_print)
  have none:
    "connect_to_instances E NoSubset max_attempts password s =
      connect_to_instances E (Collection (instances s)) max_attempts password s"
    "close_instance_connections NoSubset suppress_warning s =
      close_instance_connections (Collection (instances s)) suppress_warning s"
    "start_instances E NoSubset wait s = start_instances E (Collection (instances s)) wait s"
    "stop_instances E NoSubset wait s = stop_instances E (Collection (instances s)) wait s"
    "terminate_instances E NoSubset wait s = terminate_instances E (Collection (instances s)) wait s"
    "upload_file_to_instance E source_file destination_file NoSubset s =
      upload_file_to_instance E source_file destination_file (Collection (instances s)) s"
    by (simp_all only: connect_to_instances_def close_instance_connections_def
        start_instances_def stop_instances_def terminate_instances_def
        upload_file_to_instance_def parse_instances_NoSubset [of s])
  have none_exec:
    "execute_command E command NoSubset s = execute_command E command (Collection (instances s)) s"
    by (simp only: execute_command_def all_exec)
  show ?thesis
    using ops exec quiet single none none_exec by simp
qed

text \<open>
  C3, at a collection that holds the untracked instance \<open>inst_c\<close> after a tracked one.
\<close>

theorem unknown_instance_rejected_witness:
  "\<not> list_all (known fresh_manager) (selected (Collection [inst_a, inst_c]) fresh_manager) \<and>
   terminate_instances quiet_world (Collection [inst_a, inst_c]) True fresh_manager =
     (Inl TypeError, fresh_manager\<lparr>trace := [line not_tracked_text]\<rparr>) \<and>
   execute_command quiet_world ''ls'' (Collection [inst_a, inst_c]) fresh_manager =
     (Inl TypeError, fresh_manager\<lparr>trace := [line (executing_text ''ls''), line not_tracked_text]\<rparr>)"
proof -
  have h: "\<not> list_all (known fresh_manager) (selected (Collection [inst_a, inst_c]) fresh_manager)"
    by (simp add: selected_def known_def fresh_manager_def inst_a_def inst_b_def inst_c_def)
  have t: "trace fresh_manager = []" by (simp add: fresh_manager_def)
  from unknown_instance_rejected [OF h, of quiet_world _ _ _ True "''ls''"] h t show ?thesis
    by (simp add: py_print_def emit_def)
qed

text \<open>
  A handle that carries the identifier of a tracked instance is that instance, whatever
  address it holds: it passes validation and the operation is carried out.
\<close>

lemma same_identifier_known:
  "t \<in> set (instances s) \<Longrightarrow> id_inst i = id_inst t \<Longrightarrow> known s i"
  by (auto simp: known_def)

lemma other_handle_accepted:
  "terminate_instances quiet_world (Single other_handle_a) False connected_manager =
     (Inr (), connected_manager\<lparr>trace :=
        [line (notice_text ''Terminating instance'' other_handle_a),
         Lifecycle Terminate ''i-a'', Close 0]\<rparr>)"
  by (simp add: terminate_instances_def parse_instances_def close_instance_connections_def
      connected_manager_def fresh_manager_def quiet_world_def inst_a_def inst_b_def
      other_handle_a_def py_print_def emit_def Let_def known_def)

subsection \<open>Sessions after termination\<close>

text \<open>
  C1, as stated, fails: \<^verbatim>\<open>terminate_instances\<close> returns, and the identifier of the
  terminated instance is still a key of \<^verbatim>\<open>ssh_clients\<close>.
\<close>

theorem terminate_entry_remains:
  "fst (terminate_instances quiet_world (Collection [inst_a]) False connected_manager) = Inr () \<and>
   id_inst inst_a \<in> dom (ssh_clients (snd (terminate_instances quiet_world (Collection [inst_a]) False connected_manager)))"
  by (simp add: terminate_instances_def parse_instances_def close_instance_connections_def
      connected_manager_def fresh_manager_def quiet_world_def inst_a_def inst_b_def
      py_print_def emit_def Let_def known_def)

text \<open>
  C1, amended. When \<^verbatim>\<open>terminate_instances\<close> returns, \<^verbatim>\<open>ssh_clients\<close> is the
  mapping it was before the call (entries are never removed), and the events of the call are:
  the notice and the \<^verbatim>\<open>terminate\<close> call for each selected instance, then, only when the
  wait flag is set, the blocking call and its notice for each, and last one \<open>Close\<close> for each
  selected instance that has an entry in \<^verbatim>\<open>ssh_clients\<close>, with no warning printed, whatever
  the wait flag.
\<close>

theorem terminate_closes_and_keeps_entries:
  assumes "terminate_instances E arg wait s = (Inr (), s')"
  shows "ssh_clients s' = ssh_clients s \<and>
         new_events s s' =
           request_events Terminate ''Terminating instance'' (selected arg s)
           @ (if wait then wait_events WaitUntilTerminated ''terminated'' (selected arg s) else [])
           @ close_events s (selected arg s)"
  using terminate_instances_exact [OF assms]
  by (simp add: extends_fields(2) extends_new_events)

text \<open>
  C1, amended, on a manager with one session, with the wait flag set.
\<close>

theorem terminate_closes_and_keeps_entries_witness:
  "fst (terminate_instances quiet_world (Collection [inst_a]) True connected_manager) = Inr () \<and>
   ssh_clients (snd (terminate_instances quiet_world (Collection [inst_a]) True connected_manager))
     = [''i-a'' \<mapsto> 0] \<and>
   trace (snd (terminate_instances quiet_world (Collection [inst_a]) True connected_manager)) =
     [line ''Terminating instance i-a'', Lifecycle Terminate ''i-a'',
      Lifecycle WaitUntilTerminated ''i-a'', line ''Instance i-a terminated'', Close 0]"
proof -
  let ?r = "terminate_instances quiet_world (Collection [inst_a]) True connected_manager"
  have r: "fst ?r = Inr ()"
    by (simp add: terminate_instances_def parse_instances_def close_instance_connections_def
      connected_manager_def fresh_manager_def quiet_world_def inst_a_def inst_b_def
      py_print_def emit_def Let_def known_def)
  have t: "trace connected_manager = []" "ssh_clients connected_manager = [''i-a'' \<mapsto> 0]"
    by (simp_all add: connected_manager_def fresh_manager_def)
  from terminate_closes_and_keeps_entries [OF fst_collapse [OF r]] r t show ?thesis
    by (simp add: new_events_def selected_def request_events_def wait_events_def close_events_def
        List.map_filter_simps inst_a_def notice_text_def reached_text_def)
qed

subsection \<open>Cleanup\<close>

text \<open>
  C6. In a world where the lifecycle calls do not raise and deleting a security group
  raises at most a \<^verbatim>\<open>ClientError\<close>, \<^verbatim>\<open>cleanup\<close> returns, and what it does besides
  printing is: \<^verbatim>\<open>terminate\<close> on every tracked instance; the blocking
  \<^verbatim>\<open>wait_until_terminated\<close> on every tracked instance when, and only when,
  \<^verbatim>\<open>security_group_created\<close> is set; the closing of the open sessions; and last the deletion
  of each recorded security group when, and only when, \<^verbatim>\<open>security_group_created\<close> is set.
\<close>

theorem cleanup_effects:
  assumes "\<forall>h op i. instance_call E h op i = None"
    and "\<forall>h c g e. delete_group E h c g = Some e \<longrightarrow> (\<exists>m. e = ClientError m)"
    and "security_group_created s \<longrightarrow> security_group_ids s = Some ids"
  shows "fst (cleanup E s) = Inr () \<and>
         effects s (snd (cleanup E s)) =
           calls Terminate (instances s)
           @ (if security_group_created s then calls WaitUntilTerminated (instances s) else [])
           @ close_events s (instances s)
           @ (if security_group_created s
              then map (DeleteSecurityGroup (environment_configuration s)) ids else [])"
proof -
  let ?w = "security_group_created s"
  have sel: "selected NoSubset s = instances s" by (simp add: selected_def)
  have "fst (terminate_instances E NoSubset ?w s) = Inr ()"
    using terminate_instances_returns [OF assms(1), where arg = NoSubset and s = s and wait = ?w]
      sel known_tracked [of s] by simp
  from fst_collapse [OF this] obtain s1 where
    t: "terminate_instances E NoSubset ?w s = (Inr (), s1)" by blast
  let ?a = "request_events Terminate ''Terminating instance'' (instances s)
            @ (if ?w then wait_events WaitUntilTerminated ''terminated'' (instances s) else [])
            @ close_events s (instances s)"
  have e1: "extends s ?a s1"
    using terminate_instances_exact [OF t] unfolding sel .
  have fa: "filter (\<lambda>e. \<not> is_print e) ?a =
      calls Terminate (instances s) @ (if ?w then calls WaitUntilTerminated (instances s) else [])
      @ close_events s (instances s)"
    by (simp add: filter_request_events filter_wait_events filter_close_events)
  show ?thesis
  proof (cases ?w)
    case False
    with t e1 have "cleanup E s = (Inr (), s1)"
      by (simp add: cleanup_def extends_fields(4))
    with False fa extends_effects [OF e1] show ?thesis by simp
  next
    case True
    with assms(3) have ids: "security_group_ids s1 = Some ids"
      by (simp add: extends_fields(3) [OF e1])
    from delete_loop_effects [OF assms(2), of ids s1] obtain b s' where
      b: "delete_loop E ids s1 = (Inr (), s')" "extends s1 b s'"
         "filter (\<lambda>e. \<not> is_print e) b = map (DeleteSecurityGroup (environment_configuration s1)) ids"
      by blast
    have c: "cleanup E s = (Inr (), s')"
      using t True ids b(1) by (simp add: cleanup_def delete_security_group_def extends_fields(4) [OF e1])
    have "effects s s' = filter (\<lambda>e. \<not> is_print e) (?a @ b)"
      by (rule extends_effects [OF extends_trans [OF e1 b(2)]])
    with c True fa b(3) extends_fields(5) [OF e1] show ?thesis by simp
  qed
qed


text \<open>
  C6, on a manager that owns the security group \<^verbatim>\<open>sg-1\<close>.
\<close>

theorem cleanup_effects_witness:
  "fst (cleanup quiet_world owner_manager) = Inr () \<and>
   effects owner_manager (snd (cleanup quiet_world owner_manager)) =
     [Lifecycle Terminate ''i-a'', Lifecycle Terminate ''i-b'',
      Lifecycle WaitUntilTerminated ''i-a'', Lifecycle WaitUntilTerminated ''i-b'',
      Close 0, DeleteSecurityGroup False ''sg-1'']"
proof -
  have h1: "\<forall>h op i. instance_call quiet_world h op i = None"
    by (simp add: quiet_world_def)
  have h2: "\<forall>h c g e. delete_group quiet_world h c g = Some e \<longrightarrow> (\<exists>m. e = ClientError m)"
    by (simp add: quiet_world_def)
  have h3: "security_group_created owner_manager \<longrightarrow> security_group_ids owner_manager = Some [''sg-1'']"
    by (simp add: owner_manager_def)
  from cleanup_effects [OF h1 h2 h3] show ?thesis
    by (simp add: owner_manager_def connected_manager_def fresh_manager_def calls_def
        close_events_def List.map_filter_simps inst_a_def inst_b_def)
qed


subsection \<open>One connection attempt and the retry loop\<close>





lemma try_connect_Inr:
  "try_connect E inst pw s = (Inr u, s1) \<Longrightarrow>
   \<exists>k. s1 = s\<lparr>trace := trace s @ Connect (next_client s) (public_ip_address inst) (username s) k pw
                          # (case ssh_clients s (id_inst inst) of Some old \<Rightarrow> [Close old] | None \<Rightarrow> []),
               next_client := Suc (next_client s),
               ssh_clients := (ssh_clients s)(id_inst inst \<mapsto> next_client s)\<rparr>"
proof (cases "load_key E (trace s) (key_file s)")
  case (Inl a)
  assume "try_connect E inst pw s = (Inr u, s1)"
  with Inl show ?thesis by (simp add: try_connect_def Let_def)
next
  case (Inr k)
  assume "try_connect E inst pw s = (Inr u, s1)"
  with Inr have "s1 = s\<lparr>trace := trace s @ Connect (next_client s) (public_ip_address inst) (username s) k pw
                          # (case ssh_clients s (id_inst inst) of Some old \<Rightarrow> [Close old] | None \<Rightarrow> []),
               next_client := Suc (next_client s),
               ssh_clients := (ssh_clients s)(id_inst inst \<mapsto> next_client s)\<rparr>"
    by (auto simp: try_connect_def Let_def emit_def split: option.splits)
  then show ?thesis by blast
qed

lemma try_connect_Inl:
  "try_connect E inst pw s = (Inl e, s1) \<Longrightarrow>
   \<exists>evs. s1 = s\<lparr>trace := trace s @ evs, next_client := Suc (next_client s)\<rparr> \<and>
         (\<forall>ev\<in>set evs. is_connect ev)"
proof (cases "load_key E (trace s) (key_file s)")
  case (Inl a)
  assume "try_connect E inst pw s = (Inl e, s1)"
  with Inl have "s1 = s\<lparr>trace := trace s @ [], next_client := Suc (next_client s)\<rparr>"
    by (simp add: try_connect_def Let_def)
  then show ?thesis by (metis empty_iff empty_set)
next
  case (Inr k)
  assume "try_connect E inst pw s = (Inl e, s1)"
  with Inr have "s1 = s\<lparr>trace := trace s @ [Connect (next_client s) (public_ip_address inst) (username s) k pw],
       next_client := Suc (next_client s)\<rparr>"
    by (auto simp: try_connect_def Let_def emit_def split: option.splits)
  moreover have "\<forall>ev\<in>set [Connect (next_client s) (public_ip_address inst) (username s) k pw]. is_connect ev"
    by simp
  ultimately show ?thesis by blast
qed

lemma attempt_loop_Inl:
  "attempt_loop E inst pw n ks s = (Inl e, s') \<Longrightarrow>
   \<exists>evs c. s' = s\<lparr>trace := trace s @ evs, next_client := c\<rparr> \<and> next_client s \<le> c \<and>
           (\<forall>ev\<in>set evs. \<not> is_close ev)"
proof (induction ks arbitrary: s)
  case Nil
  then show ?case by simp
next
  case (Cons k ks)
  obtain r s1 where t: "try_connect E inst pw s = (r, s1)" by (cases "try_connect E inst pw s")
  show ?case
  proof (cases r)
    case (Inr u)
    with Cons.prems t show ?thesis by simp
  next
    case (Inl e1)
    from try_connect_Inl [OF t [unfolded Inl]] obtain a where
      a: "s1 = s\<lparr>trace := trace s @ a, next_client := Suc (next_client s)\<rparr>"
         "\<forall>ev\<in>set a. is_connect ev" by blast
    have na: "\<forall>ev\<in>set a. \<not> is_close ev"
    proof
      fix ev assume "ev \<in> set a"
      with a(2) have "is_connect ev" by blast
      then show "\<not> is_close ev" by (cases ev) simp_all
    qed
    show ?thesis
    proof (cases "\<exists>tail. retry_text e1 = Some tail \<and> k \<noteq> n")
      case False
      with Cons.prems t Inl have "s' = s1"
        by (auto split: option.splits if_splits)
      with a(1) na show ?thesis
        by (metis le_SucI order_refl)
    next
      case True
      then obtain tail where tail: "retry_text e1 = Some tail" "k \<noteq> n" by blast
      let ?s2 = "emit (Sleep 10) (py_print (retry_message k inst tail) s1)"
      from Cons.prems t Inl tail have "attempt_loop E inst pw n ks ?s2 = (Inl e, s')" by simp
      from Cons.IH [OF this] obtain b c where
        b: "s' = ?s2\<lparr>trace := trace ?s2 @ b, next_client := c\<rparr>" "next_client ?s2 \<le> c"
           "\<forall>ev\<in>set b. \<not> is_close ev" by blast
      let ?evs = "a @ [line (retry_message k inst tail), Sleep 10] @ b"
      have "s' = s\<lparr>trace := trace s @ ?evs, next_client := c\<rparr>"
        using b(1) a(1) by (simp add: emit_def py_print_def)
      moreover have "next_client s \<le> c" using b(2) a(1) by (simp add: emit_def py_print_def)
      moreover have "\<forall>ev\<in>set ?evs. \<not> is_close ev" using na b(3) by (auto simp: line_def)
      ultimately show ?thesis by blast
    qed
  qed
qed

lemma attempt_loop_Inr:
  "attempt_loop E inst pw n ks s = (Inr u, s') \<Longrightarrow> ks \<noteq> [] \<Longrightarrow> last ks = n \<Longrightarrow>
   \<exists>h c k. trace s' = h @ Connect c (public_ip_address inst) (username s) k pw
                        # (case ssh_clients s (id_inst inst) of Some old \<Rightarrow> [Close old] | None \<Rightarrow> []) \<and>
           length (trace s) \<le> length h \<and>
           ssh_clients s' = (ssh_clients s)(id_inst inst \<mapsto> c) \<and>
           next_client s \<le> c \<and> next_client s' = Suc c"
proof (induction ks arbitrary: s)
  case Nil
  then show ?case by simp
next
  case (Cons k ks)
  obtain r s1 where t: "try_connect E inst pw s = (r, s1)" by (cases "try_connect E inst pw s")
  show ?case
  proof (cases r)
    case (Inr v)
    from try_connect_Inr [OF t [unfolded Inr]] obtain key where
      s1: "s1 = s\<lparr>trace := trace s @ Connect (next_client s) (public_ip_address inst) (username s) key pw
                          # (case ssh_clients s (id_inst inst) of Some old \<Rightarrow> [Close old] | None \<Rightarrow> []),
               next_client := Suc (next_client s),
               ssh_clients := (ssh_clients s)(id_inst inst \<mapsto> next_client s)\<rparr>" by blast
    from Cons.prems t Inr have "s' = s1" by simp
    with s1 have "trace s' = trace s @ Connect (next_client s) (public_ip_address inst) (username s) key pw
                          # (case ssh_clients s (id_inst inst) of Some old \<Rightarrow> [Close old] | None \<Rightarrow> [])"
      "length (trace s) \<le> length (trace s)"
      "ssh_clients s' = (ssh_clients s)(id_inst inst \<mapsto> next_client s)"
      "next_client s \<le> next_client s" "next_client s' = Suc (next_client s)"
      by simp_all
    then show ?thesis by blast
  next
    case (Inl e1)
    from try_connect_Inl [OF t [unfolded Inl]] obtain a where
      a: "s1 = s\<lparr>trace := trace s @ a, next_client := Suc (next_client s)\<rparr>" by blast
    from Cons.prems(1) t Inl obtain tail where tail: "retry_text e1 = Some tail" "k \<noteq> n"
      by (auto split: option.splits if_splits)
    let ?s2 = "emit (Sleep 10) (py_print (retry_message k inst tail) s1)"
    from Cons.prems t Inl tail have run: "attempt_loop E inst pw n ks ?s2 = (Inr u, s')" by simp
    from Cons.prems(2,3) tail(2) have ks: "ks \<noteq> []" "last ks = n" by (auto split: if_splits)
    have f: "ssh_clients ?s2 = ssh_clients s" "username ?s2 = username s"
      "next_client ?s2 = Suc (next_client s)"
      "trace ?s2 = trace s @ a @ [line (retry_message k inst tail), Sleep 10]"
      using a by (simp_all add: emit_def py_print_def)
    from Cons.IH [OF run ks] obtain h c key where
      r: "trace s' = h @ Connect c (public_ip_address inst) (username ?s2) key pw
                        # (case ssh_clients ?s2 (id_inst inst) of Some old \<Rightarrow> [Close old] | None \<Rightarrow> [])"
         "length (trace ?s2) \<le> length h"
         "ssh_clients s' = (ssh_clients ?s2)(id_inst inst \<mapsto> c)"
         "next_client ?s2 \<le> c" "next_client s' = Suc c" by blast
    have "trace s' = h @ Connect c (public_ip_address inst) (username s) key pw
                        # (case ssh_clients s (id_inst inst) of Some old \<Rightarrow> [Close old] | None \<Rightarrow> [])"
      using r(1) f(1,2) by simp
    moreover have "length (trace s) \<le> length h" using r(2) f(4) by simp
    moreover have "ssh_clients s' = (ssh_clients s)(id_inst inst \<mapsto> c)" using r(3) f(1) by simp
    moreover have "next_client s \<le> c" using r(4) f(3) by simp
    ultimately show ?thesis using r(5) by blast
  qed
qed

lemma upto_last: "(1::int) \<le> n \<Longrightarrow> [1..n] \<noteq> [] \<and> last [1..n] = n"
  by (simp add: upto_rec2)


subsection \<open>Sessions across a call of \<^verbatim>\<open>connect_to_instances\<close>\<close>

lemma advanced_refl: "advanced s s"
  by (simp add: advanced_def)

lemma advanced_trans: "advanced s s1 \<Longrightarrow> advanced s1 s2 \<Longrightarrow> advanced s s2"
  unfolding advanced_def
  by (metis (no_types, lifting) le_trans less_le_trans)

lemma advanced_output:
  "advanced s (emit e s)" "advanced s (py_print m s)"
  by (simp_all add: advanced_def emit_def py_print_def)

lemma try_connect_advanced: "try_connect E inst pw s = (r, s1) \<Longrightarrow> advanced s s1"
proof (cases r)
  case (Inl e)
  assume "try_connect E inst pw s = (r, s1)"
  from try_connect_Inl [OF this [unfolded Inl]] show ?thesis
    by (auto simp: advanced_def)
next
  case (Inr u)
  assume "try_connect E inst pw s = (r, s1)"
  from try_connect_Inr [OF this [unfolded Inr]] obtain k where
    s1: "s1 = s\<lparr>trace := trace s @ Connect (next_client s) (public_ip_address inst) (username s) k pw
                          # (case ssh_clients s (id_inst inst) of Some old \<Rightarrow> [Close old] | None \<Rightarrow> []),
               next_client := Suc (next_client s),
               ssh_clients := (ssh_clients s)(id_inst inst \<mapsto> next_client s)\<rparr>" by blast
  show ?thesis
    unfolding advanced_def
  proof (intro conjI allI)
    show "next_client s \<le> next_client s1" using s1 by simp
  next
    fix key
    show "ssh_clients s1 key = ssh_clients s key \<or>
          (\<exists>c. ssh_clients s1 key = Some c \<and> next_client s \<le> c \<and> c < next_client s1)"
    proof (cases "key = id_inst inst")
      case True
      then have "ssh_clients s1 key = Some (next_client s) \<and> next_client s \<le> next_client s \<and>
                 next_client s < next_client s1"
        using s1 by simp
      then show ?thesis by blast
    next
      case False
      then show ?thesis using s1 by simp
    qed
  qed
qed

lemma attempt_loop_advanced: "attempt_loop E inst pw n ks s = (r, s') \<Longrightarrow> advanced s s'"
proof (induction ks arbitrary: s)
  case Nil
  then show ?case by (simp add: advanced_refl)
next
  case (Cons k ks)
  obtain r1 s1 where t: "try_connect E inst pw s = (r1, s1)" by (cases "try_connect E inst pw s")
  note a1 = try_connect_advanced [OF t]
  show ?case
  proof (cases "\<exists>e tail. r1 = Inl e \<and> retry_text e = Some tail \<and> k \<noteq> n")
    case False
    with Cons.prems t have "s' = s1"
      by (auto split: sum.splits option.splits if_splits)
    with a1 show ?thesis by simp
  next
    case True
    then obtain e tail where e: "r1 = Inl e" "retry_text e = Some tail" "k \<noteq> n" by blast
    let ?s2 = "emit (Sleep 10) (py_print (retry_message k inst tail) s1)"
    from Cons.prems t e have "attempt_loop E inst pw n ks ?s2 = (r, s')" by simp
    from Cons.IH [OF this] have "advanced ?s2 s'" .
    moreover have "advanced s1 ?s2"
      by (rule advanced_trans [OF advanced_output(2) advanced_output(1)])
    ultimately show ?thesis using a1 advanced_trans by blast
  qed
qed

lemma connect_loop_advanced: "connect_loop E pw n xs s = (r, s') \<Longrightarrow> advanced s s'"
proof (induction xs arbitrary: s)
  case Nil
  then show ?case by (simp add: advanced_refl)
next
  case (Cons x xs)
  obtain r1 s1 where a: "attempt_loop E x pw n [1..n] s = (r1, s1)"
    by (cases "attempt_loop E x pw n [1..n] s")
  note a1 = attempt_loop_advanced [OF a]
  show ?case
  proof (cases r1)
    case (Inl e)
    with Cons.prems a have "s' = s1" by simp
    with a1 show ?thesis by simp
  next
    case (Inr u)
    with Cons.prems a have "connect_loop E pw n xs s1 = (r, s')" by simp
    from advanced_trans [OF a1 Cons.IH [OF this]] show ?thesis .
  qed
qed

lemma connect_loop_established:
  "connect_loop E pw n xs s = (Inr u, s') \<Longrightarrow> 1 \<le> n \<Longrightarrow>
   \<forall>i\<in>set xs. \<exists>c. ssh_clients s' (id_inst i) = Some c \<and> next_client s \<le> c"
proof (induction xs arbitrary: s)
  case Nil
  then show ?case by simp
next
  case (Cons x xs)
  obtain r1 s1 where a: "attempt_loop E x pw n [1..n] s = (r1, s1)"
    by (cases "attempt_loop E x pw n [1..n] s")
  with Cons.prems(1) obtain v where r1: "r1 = Inr v" by (cases r1) simp_all
  with Cons.prems(1) a have rest: "connect_loop E pw n xs s1 = (Inr u, s')" by simp
  from attempt_loop_Inr [OF a [unfolded r1]] upto_last [OF Cons.prems(2)]
  obtain c where c: "ssh_clients s1 (id_inst x) = Some c" "next_client s \<le> c" "next_client s1 = Suc c"
    by fastforce
  have mono: "next_client s \<le> next_client s1" using c by simp
  from Cons.IH [OF rest Cons.prems(2)] have
    tail: "\<forall>i\<in>set xs. \<exists>c. ssh_clients s' (id_inst i) = Some c \<and> next_client s \<le> c"
    using mono by (meson le_trans)
  from connect_loop_advanced [OF rest] have
    "ssh_clients s' (id_inst x) = ssh_clients s1 (id_inst x) \<or>
     (\<exists>c'. ssh_clients s' (id_inst x) = Some c' \<and> next_client s1 \<le> c' \<and> c' < next_client s')"
    by (simp add: advanced_def)
  then have "\<exists>c. ssh_clients s' (id_inst x) = Some c \<and> next_client s \<le> c"
    using c mono by (metis le_trans)
  with tail show ?case by simp
qed

lemma connect_loop_append:
  "connect_loop E pw n (xs @ ys) s =
     (case connect_loop E pw n xs s of
        (Inl e, s1) \<Rightarrow> (Inl e, s1)
      | (Inr u, s1) \<Rightarrow> connect_loop E pw n ys s1)"
  by (induction xs arbitrary: s) (auto split: prod.splits sum.splits)

lemma connect_to_instances_valid:
  "list_all (known s) xs \<Longrightarrow>
   connect_to_instances E (Collection xs) n pw s = connect_loop E pw n xs s"
  using parse_instances_ok [where arg = "Collection xs" and s = s]
  by (simp add: connect_to_instances_def selected_def)

lemma connect_loop_stops:
  assumes "connect_loop E pw n pre s = (Inr (), s1)"
    and "attempt_loop E inst pw n [1..n] s1 = (Inl e, s2)"
  shows "connect_loop E pw n (pre @ inst # post) s = (Inl e, s2)"
  using assms by (simp add: connect_loop_append)

subsection \<open>Connecting: retries, replacement, failure\<close>


text \<open>
  C7. When \<^verbatim>\<open>connect_to_instances\<close> on an instance that has the session \<open>old\<close>
  returns (with \<open>max_attempts \<ge> 1\<close>, so that a connection was made), the last two events are
  the successful connection of a client \<open>c\<close> created during the call and the closing of
  \<open>old\<close>, and \<^verbatim>\<open>ssh_clients\<close> is the old mapping with the instance's identifier now
  mapped to \<open>c\<close>: one session for the identifier, the new one.
\<close>

theorem reconnect_replaces_session:
  assumes "connect_to_instances E (Single inst) max_attempts pw s = (Inr (), s')"
    and "1 \<le> max_attempts"
    and "ssh_clients s (id_inst inst) = Some old"
  shows "\<exists>h c k.
           trace s' = h @ [Connect c (public_ip_address inst) (username s) k pw, Close old] \<and>
           length (trace s) \<le> length h \<and>
           ssh_clients s' = (ssh_clients s)(id_inst inst \<mapsto> c) \<and>
           next_client s \<le> c"
proof -
  have valid: "list_all (known s) (selected (Single inst) s)"
  proof (rule ccontr)
    assume "\<not> list_all (known s) (selected (Single inst) s)"
    from parse_instances_bad [OF this] assms(1) show False
      by (simp add: connect_to_instances_def)
  qed
  have "parse_instances (Single inst) s = (Inr [inst], s)"
    using parse_instances_ok [OF valid] by (simp add: selected_def)
  with assms(1) have "attempt_loop E inst pw max_attempts [1..max_attempts] s = (Inr (), s')"
    by (simp add: connect_to_instances_def split: prod.splits sum.splits)
  from attempt_loop_Inr [OF this] upto_last [OF assms(2)] assms(3) show ?thesis
    by fastforce
qed

text \<open>
  C2, amended. When the instances before \<open>inst\<close> have been connected and the attempts
  for \<open>inst\<close> end with an error, \<^verbatim>\<open>connect_to_instances\<close> raises that error in the state
  the failed attempts left: the call is over, and whatever instances follow \<open>inst\<close> in the
  subset play no part in it.
\<close>

theorem connect_failure_aborts:
  assumes "list_all (known s) (pre @ inst # post)"
    and "connect_to_instances E (Collection pre) max_attempts pw s = (Inr (), s1)"
    and "attempt_loop E inst pw max_attempts [1..max_attempts] s1 = (Inl e, s2)"
  shows "connect_to_instances E (Collection (pre @ inst # post)) max_attempts pw s = (Inl e, s2) \<and>
         connect_to_instances E (Collection (pre @ inst # post)) max_attempts pw s =
           connect_to_instances E (Collection (pre @ [inst])) max_attempts pw s"
proof -
  have pre: "connect_loop E pw max_attempts pre s = (Inr (), s1)"
    using assms(1,2) connect_to_instances_valid [where xs = pre and s = s and E = E and n = max_attempts and pw = pw] by simp
  have "connect_to_instances E (Collection (pre @ inst # post)) max_attempts pw s = (Inl e, s2)"
    using connect_loop_stops [OF pre assms(3)] assms(1)
      connect_to_instances_valid [where xs = "pre @ inst # post" and s = s and E = E and n = max_attempts and pw = pw] by simp
  moreover have "connect_to_instances E (Collection (pre @ [inst])) max_attempts pw s = (Inl e, s2)"
    using connect_loop_stops [OF pre assms(3), of "[]"] assms(1)
      connect_to_instances_valid [where xs = "pre @ [inst]" and s = s and E = E and n = max_attempts and pw = pw] by simp
  ultimately show ?thesis by simp
qed

text \<open>
  C10. When the first instances \<open>pre\<close> of the subset have been connected and the attempts
  for the next one end with an error, the call raises that error, \<^verbatim>\<open>ssh_clients\<close> is exactly
  what the successful connections left, every instance of \<open>pre\<close> has a session created during
  the call, and the failed attempts have closed nothing.
\<close>

theorem sessions_survive_failure:
  assumes "list_all (known s) (pre @ inst # post)"
    and "connect_loop E pw max_attempts pre s = (Inr (), s1)"
    and "attempt_loop E inst pw max_attempts [1..max_attempts] s1 = (Inl e, s2)"
  shows "connect_to_instances E (Collection (pre @ inst # post)) max_attempts pw s = (Inl e, s2) \<and>
         ssh_clients s2 = ssh_clients s1 \<and>
         (\<forall>i\<in>set pre. \<exists>c. ssh_clients s2 (id_inst i) = Some c \<and> next_client s \<le> c) \<and>
         (\<forall>ev\<in>set (new_events s1 s2). \<not> is_close ev)"
proof -
  have n: "1 \<le> max_attempts"
  proof (rule ccontr)
    assume "\<not> 1 \<le> max_attempts"
    then have "[1..max_attempts] = []" by simp
    with assms(3) show False by simp
  qed
  from attempt_loop_Inl [OF assms(3)] obtain evs c where
    f: "s2 = s1\<lparr>trace := trace s1 @ evs, next_client := c\<rparr>" "\<forall>ev\<in>set evs. \<not> is_close ev"
    by blast
  have same: "ssh_clients s2 = ssh_clients s1" using f(1) by simp
  have ne: "new_events s1 s2 = evs" using f(1) by (simp add: new_events_def)
  have "connect_to_instances E (Collection (pre @ inst # post)) max_attempts pw s = (Inl e, s2)"
    using connect_loop_stops [OF assms(2,3)] assms(1)
      connect_to_instances_valid [where xs = "pre @ inst # post" and s = s and E = E and n = max_attempts and pw = pw] by simp
  moreover have "\<forall>i\<in>set pre. \<exists>c. ssh_clients s2 (id_inst i) = Some c \<and> next_client s \<le> c"
    using connect_loop_established [OF assms(2) n] same by simp
  ultimately show ?thesis using same ne f(2) by simp
qed


subsection \<open>Connecting: concrete runs\<close>

lemmas world_defs = unreachable_a_world_def quiet_world_def fresh_manager_def connected_manager_def
  inst_a_def inst_b_def inst_c_def known_def

lemmas run_defs = connect_to_instances_def parse_instances_def try_connect_def retry_text_def
  Let_def emit_def py_print_def upto.simps [of 1]

text \<open>
  C2, as stated, fails: the first instance never answers, the call raises after the second
  attempt, and the trace holds no connection attempt to the second instance, which would have
  answered.
\<close>

theorem connect_failure_skips_rest:
  "connect_to_instances unreachable_a_world (Collection [inst_a, inst_b]) 2 None fresh_manager =
     (Inl TimeoutError,
      fresh_manager\<lparr>trace :=
          [Connect 0 (Some ''10.0.0.1'') ''ubuntu'' ''key'' None,
           line (retry_message 1 inst_a '' timed out. Trying again...''),
           Sleep 10,
           Connect 1 (Some ''10.0.0.1'') ''ubuntu'' ''key'' None],
        next_client := 2\<rparr>) \<and>
   fst (connect_to_instances unreachable_a_world (Single inst_b) 2 None fresh_manager) = Inr ()"
  by (simp add: run_defs world_defs)

text \<open>
  C2, amended, with the unreachable instance between two reachable ones.
\<close>

theorem connect_failure_aborts_witness:
  "connect_to_instances unreachable_a_world (Collection [inst_b, inst_a, inst_b]) 2 None fresh_manager =
   connect_to_instances unreachable_a_world (Collection [inst_b, inst_a]) 2 None fresh_manager \<and>
   fst (connect_to_instances unreachable_a_world (Collection [inst_b, inst_a, inst_b]) 2 None fresh_manager)
     = Inl TimeoutError"
proof -
  let ?pre = "connect_to_instances unreachable_a_world (Collection [inst_b]) 2 None fresh_manager"
  let ?att = "attempt_loop unreachable_a_world inst_a None 2 [1..2] (snd ?pre)"
  have v: "list_all (known fresh_manager) ([inst_b] @ inst_a # [inst_b])"
    by (simp add: world_defs)
  have p: "fst ?pre = Inr ()" by (simp add: run_defs world_defs)
  have a: "fst ?att = Inl TimeoutError" by (simp add: run_defs world_defs)
  have l: "[inst_b] @ inst_a # [inst_b] = [inst_b, inst_a, inst_b]"
    "[inst_b] @ [inst_a] = [inst_b, inst_a]" by simp_all
  from connect_failure_aborts [OF v fst_collapse [OF p] fst_collapse [OF a]] show ?thesis
    unfolding l by (metis fst_conv)
qed

text \<open>
  C10: the session of the first instance is still there after the second one failed.
\<close>

theorem sessions_survive_failure_witness:
  "fst (connect_to_instances unreachable_a_world (Collection [inst_b, inst_a, inst_b]) 2 None fresh_manager)
     = Inl TimeoutError \<and>
   ssh_clients (snd (connect_to_instances unreachable_a_world (Collection [inst_b, inst_a, inst_b]) 2 None
     fresh_manager)) ''i-b'' = Some 0"
proof -
  let ?pre = "connect_loop unreachable_a_world None 2 [inst_b] fresh_manager"
  let ?att = "attempt_loop unreachable_a_world inst_a None 2 [1..2] (snd ?pre)"
  have v: "list_all (known fresh_manager) ([inst_b] @ inst_a # [inst_b])"
    by (simp add: world_defs)
  have p: "fst ?pre = Inr ()" by (simp add: run_defs world_defs)
  have a: "fst ?att = Inl TimeoutError" by (simp add: run_defs world_defs)
  have m: "ssh_clients (snd ?pre) ''i-b'' = Some 0" by (simp add: run_defs world_defs)
  from sessions_survive_failure [OF v fst_collapse [OF p] fst_collapse [OF a]] m show ?thesis
    by simp
qed


text \<open>
  C7, on a manager whose first instance is connected through client 0.
\<close>

theorem reconnect_replaces_session_witness:
  "connect_to_instances quiet_world (Single inst_a) 10 None connected_manager =
     (Inr (), connected_manager\<lparr>trace := [Connect 1 (Some ''10.0.0.1'') ''ubuntu'' ''key'' None, Close 0],
        next_client := 2, ssh_clients := [''i-a'' \<mapsto> 1]\<rparr>)"
proof -
  let ?r = "connect_to_instances quiet_world (Single inst_a) 10 None connected_manager"
  have r: "fst ?r = Inr ()" by (simp add: run_defs world_defs)
  have n: "next_client (snd ?r) = 2" by (simp add: run_defs world_defs)
  have old: "ssh_clients connected_manager (id_inst inst_a) = Some 0" by (simp add: world_defs)
  from reconnect_replaces_session [OF fst_collapse [OF r] _ old] obtain h c k where
    f: "trace (snd ?r) = h @ [Connect c (public_ip_address inst_a) (username connected_manager) k None, Close 0]"
       "ssh_clients (snd ?r) = (ssh_clients connected_manager)(id_inst inst_a \<mapsto> c)"
    by auto
  have t: "trace (snd ?r) = [Connect 1 (Some ''10.0.0.1'') ''ubuntu'' ''key'' None, Close 0]"
    by (simp add: run_defs world_defs)
  with f(1) have "c = 1" by (cases h) auto
  with f(2) have "ssh_clients (snd ?r) = [''i-a'' \<mapsto> 1]" by (simp add: world_defs)
  with r n t show ?thesis
    by (cases ?r) (simp add: world_defs run_defs)
qed


subsection \<open>Running commands\<close>









subsection \<open>Creating the security group\<close>

lemma create_security_group_duplicate:
  assumes "create_group E (trace s) group_name group_description = Inl (ClientError msg)"
    and "str_contains duplicate_code msg"
    and "\<forall>h. describe_security_groups E h [group_name] = Inr (gid # others)"
  shows "create_security_group E s =
           (Inr (), s\<lparr>trace := trace s @ [CreateSecurityGroup group_name group_description,
                                         line ''Security group already created'',
                                         DescribeSecurityGroups [group_name]],
                      security_group_ids := Some [gid]\<rparr>)"
  using assms
  by (simp add: create_security_group_def create_and_authorize_def on_client_error_def
      Let_def emit_def py_print_def)

lemma create_security_group_other:
  assumes "create_group E (trace s) group_name group_description = Inl e"
    and "\<forall>msg. e = ClientError msg \<longrightarrow> \<not> str_contains duplicate_code msg"
  shows "fst (create_security_group E s) = Inl e \<and>
         security_group_ids (snd (create_security_group E s)) = security_group_ids s \<and>
         security_group_created (snd (create_security_group E s)) = security_group_created s \<and>
         effects s (snd (create_security_group E s)) = [CreateSecurityGroup group_name group_description]"
  using assms
  by (cases e)
     (simp_all add: create_security_group_def create_and_authorize_def on_client_error_def
      Let_def emit_def py_print_def effects_def new_events_def is_print_line)

lemma create_security_group_creates:
  assumes "create_group E (trace s) group_name group_description = Inr gid"
    and "\<forall>h. authorize_ingress E h gid = None"
  shows "create_security_group E s =
           (Inr (), s\<lparr>trace := trace s @ [CreateSecurityGroup group_name group_description,
                                         AuthorizeIngress gid ingress_permissions],
                      security_group_ids := Some [gid], security_group_created := True\<rparr>)"
  using assms
  by (simp add: create_security_group_def create_and_authorize_def Let_def emit_def)

text \<open>
  C5. Three cases of \<^verbatim>\<open>create_security_group\<close>. When the creation call raises a
  \<^verbatim>\<open>ClientError\<close> whose text contains \<^verbatim>\<open>InvalidGroup.Duplicate\<close>, the group is looked up
  by name, the identifier found is recorded, and \<^verbatim>\<open>security_group_created\<close> is what it was.
  When the creation call raises anything else, that exception reaches the caller and neither
  field has changed. When a first call creates the group and the second one is answered with
  the duplicate error, both calls return with the same identifier recorded, and the flag, set by
  the first call, is still set after the second.
\<close>

theorem duplicate_group_adopted:
  "(create_group E (trace s) group_name group_description = Inl (ClientError msg) \<and>
    str_contains duplicate_code msg \<and>
    (\<forall>h. describe_security_groups E h [group_name] = Inr (gid # others))
    \<longrightarrow> fst (create_security_group E s) = Inr () \<and>
        security_group_ids (snd (create_security_group E s)) = Some [gid] \<and>
        security_group_created (snd (create_security_group E s)) = security_group_created s \<and>
        effects s (snd (create_security_group E s)) =
          [CreateSecurityGroup group_name group_description, DescribeSecurityGroups [group_name]])
   \<and>
   (create_group E (trace s) group_name group_description = Inl e \<and>
    (\<forall>m. e = ClientError m \<longrightarrow> \<not> str_contains duplicate_code m)
    \<longrightarrow> fst (create_security_group E s) = Inl e \<and>
        security_group_ids (snd (create_security_group E s)) = security_group_ids s \<and>
        security_group_created (snd (create_security_group E s)) = security_group_created s)
   \<and>
   (create_group E (trace s) group_name group_description = Inr gid \<and>
    (\<forall>h. authorize_ingress E h gid = None) \<and>
    create_group E (trace (snd (create_security_group E s))) group_name group_description
      = Inl (ClientError msg) \<and>
    str_contains duplicate_code msg \<and>
    (\<forall>h. describe_security_groups E h [group_name] = Inr (gid # others))
    \<longrightarrow> fst (create_security_group E s) = Inr () \<and>
        security_group_ids (snd (create_security_group E s)) = Some [gid] \<and>
        security_group_created (snd (create_security_group E s)) \<and>
        fst (create_security_group E (snd (create_security_group E s))) = Inr () \<and>
        security_group_ids (snd (create_security_group E (snd (create_security_group E s)))) = Some [gid] \<and>
        security_group_created (snd (create_security_group E (snd (create_security_group E s)))))"
proof (intro conjI impI)
  assume a: "create_group E (trace s) group_name group_description = Inl (ClientError msg) \<and>
    str_contains duplicate_code msg \<and>
    (\<forall>h. describe_security_groups E h [group_name] = Inr (gid # others))"
  then have r: "create_security_group E s =
           (Inr (), s\<lparr>trace := trace s @ [CreateSecurityGroup group_name group_description,
                                         line ''Security group already created'',
                                         DescribeSecurityGroups [group_name]],
                      security_group_ids := Some [gid]\<rparr>)"
    using create_security_group_duplicate by blast
  show "fst (create_security_group E s) = Inr ()"
    "security_group_ids (snd (create_security_group E s)) = Some [gid]"
    "security_group_created (snd (create_security_group E s)) = security_group_created s"
    "effects s (snd (create_security_group E s)) =
          [CreateSecurityGroup group_name group_description, DescribeSecurityGroups [group_name]]"
    by (simp_all add: r effects_def new_events_def is_print_line)
next
  assume a: "create_group E (trace s) group_name group_description = Inl e \<and>
    (\<forall>m. e = ClientError m \<longrightarrow> \<not> str_contains duplicate_code m)"
  then have r: "fst (create_security_group E s) = Inl e \<and>
         security_group_ids (snd (create_security_group E s)) = security_group_ids s \<and>
         security_group_created (snd (create_security_group E s)) = security_group_created s \<and>
         effects s (snd (create_security_group E s)) = [CreateSecurityGroup group_name group_description]"
    using create_security_group_other [of E s e] by blast
  show "fst (create_security_group E s) = Inl e"
    "security_group_ids (snd (create_security_group E s)) = security_group_ids s"
    "security_group_created (snd (create_security_group E s)) = security_group_created s"
    using r by simp_all
next
  assume a: "create_group E (trace s) group_name group_description = Inr gid \<and>
    (\<forall>h. authorize_ingress E h gid = None) \<and>
    create_group E (trace (snd (create_security_group E s))) group_name group_description
      = Inl (ClientError msg) \<and>
    str_contains duplicate_code msg \<and>
    (\<forall>h. describe_security_groups E h [group_name] = Inr (gid # others))"
  let ?s1 = "snd (create_security_group E s)"
  have r1: "create_security_group E s =
           (Inr (), s\<lparr>trace := trace s @ [CreateSecurityGroup group_name group_description,
                                         AuthorizeIngress gid ingress_permissions],
                      security_group_ids := Some [gid], security_group_created := True\<rparr>)"
    using a create_security_group_creates by blast
  have r2: "create_security_group E ?s1 =
           (Inr (), ?s1\<lparr>trace := trace ?s1 @ [CreateSecurityGroup group_name group_description,
                                         line ''Security group already created'',
                                         DescribeSecurityGroups [group_name]],
                      security_group_ids := Some [gid]\<rparr>)"
    using a create_security_group_duplicate [of E ?s1 msg gid others] by blast
  show "fst (create_security_group E s) = Inr ()"
    "security_group_ids ?s1 = Some [gid]"
    "security_group_created ?s1"
    by (simp_all add: r1)
  show "fst (create_security_group E ?s1) = Inr ()"
    "security_group_ids (snd (create_security_group E ?s1)) = Some [gid]"
    by (simp_all add: r2)
  show "security_group_created (snd (create_security_group E ?s1))"
    unfolding r2 by (simp add: r1)
qed


text \<open>
  C5: two calls in a world that holds one group of a name, a manager that meets a
  group it did not create, and a world that refuses the creation.
\<close>

theorem duplicate_group_adopted_witness:
  "fst (create_security_group one_group_world fresh_manager) = Inr () \<and>
   security_group_ids (snd (create_security_group one_group_world fresh_manager)) = Some [''sg-1''] \<and>
   security_group_created (snd (create_security_group one_group_world fresh_manager)) \<and>
   fst (create_security_group one_group_world
          (snd (create_security_group one_group_world fresh_manager))) = Inr () \<and>
   security_group_ids (snd (create_security_group one_group_world
          (snd (create_security_group one_group_world fresh_manager)))) = Some [''sg-1''] \<and>
   security_group_created (snd (create_security_group one_group_world
          (snd (create_security_group one_group_world fresh_manager)))) \<and>
   fst (create_security_group one_group_world
          (fresh_manager\<lparr>trace := [CreateSecurityGroup group_name group_description]\<rparr>)) = Inr () \<and>
   security_group_ids (snd (create_security_group one_group_world
          (fresh_manager\<lparr>trace := [CreateSecurityGroup group_name group_description]\<rparr>))) = Some [''sg-1''] \<and>
   security_group_created (snd (create_security_group one_group_world
          (fresh_manager\<lparr>trace := [CreateSecurityGroup group_name group_description]\<rparr>))) = False \<and>
   fst (create_security_group denied_world fresh_manager) =
     Inl (ClientError ''An error occurred (UnauthorizedOperation)'') \<and>
   security_group_ids (snd (create_security_group denied_world fresh_manager)) = None"
proof -
  let ?adopt = "fresh_manager\<lparr>trace := [CreateSecurityGroup group_name group_description]\<rparr>"
  have dup: "str_contains duplicate_code duplicate_text"
    by (simp add: duplicate_code_def duplicate_text_def)
  have desc: "\<forall>h. describe_security_groups one_group_world h [group_name] = Inr (''sg-1'' # [])"
    by (simp add: one_group_world_def quiet_world_def)
  have auth: "\<forall>h. authorize_ingress one_group_world h ''sg-1'' = None"
    by (simp add: one_group_world_def quiet_world_def)
  have first: "create_group one_group_world (trace fresh_manager) group_name group_description
      = Inr ''sg-1''"
    by (simp add: one_group_world_def quiet_world_def fresh_manager_def)
  have second: "create_group one_group_world
      (trace (snd (create_security_group one_group_world fresh_manager))) group_name group_description
      = Inl (ClientError duplicate_text)"
    by (simp add: create_security_group_def create_and_authorize_def one_group_world_def
        quiet_world_def fresh_manager_def Let_def emit_def)
  have other: "create_group one_group_world (trace ?adopt) group_name group_description
      = Inl (ClientError duplicate_text)"
    by (simp add: one_group_world_def quiet_world_def)
  have denied: "create_group denied_world (trace fresh_manager) group_name group_description
      = Inl (ClientError ''An error occurred (UnauthorizedOperation)'')"
    by (simp add: denied_world_def quiet_world_def)
  have nodup: "\<forall>m. ClientError ''An error occurred (UnauthorizedOperation)'' = ClientError m
      \<longrightarrow> \<not> str_contains duplicate_code m"
    by (simp add: duplicate_code_def)
  have f: "security_group_created ?adopt = False" "security_group_ids fresh_manager = None"
    by (simp_all add: fresh_manager_def)
  note seq = duplicate_group_adopted [where E = one_group_world and s = fresh_manager
      and msg = duplicate_text and gid = "''sg-1''" and others = "[]", THEN conjunct2, THEN conjunct2]
  note adopt = duplicate_group_adopted [where E = one_group_world and s = ?adopt
      and msg = duplicate_text and gid = "''sg-1''" and others = "[]", THEN conjunct1]
  note deny = duplicate_group_adopted [where E = denied_world and s = fresh_manager
      and e = "ClientError ''An error occurred (UnauthorizedOperation)''",
      THEN conjunct2, THEN conjunct1]
  from seq first auth second dup desc adopt other deny denied nodup f show ?thesis
    by simp
qed

end
